theory Spec2Isabelle
  imports Main
begin

section \<open>Data model\<close>

text \<open>
  The dictionary built at lines 200-205 of \<^verbatim>\<open>web_scaper.py\<close>. The link is what
  \<^verbatim>\<open>get_attribute("href")\<close> returned, which is \<^verbatim>\<open>None\<close> for an anchor without one.
\<close>

record problem =
  name :: string
  link :: "string option"
  section_name :: string
  solved :: bool

text \<open>The dictionary returned by \<^verbatim>\<open>scrape_problem_data\<close> on success (lines 223-228).\<close>

record problems_data =
  pd_solved :: "problem list"
  pd_unsolved :: "problem list"
  total_solved :: int
  total_problems :: int

definition mk_problems_data :: "problem list \<Rightarrow> problem list \<Rightarrow> problems_data" where
  "mk_problems_data solved_problems unsolved_problems =
     \<lparr>pd_solved = solved_problems,
      pd_unsolved = unsolved_problems,
      total_solved = int (length solved_problems),
      total_problems = int (length solved_problems) + int (length unsolved_problems)\<rparr>"

text \<open>One value of \<^verbatim>\<open>stats["sections"]\<close>: \<^verbatim>\<open>{"solved": 0, "total": 0}\<close> when created.\<close>

record section_stats =
  sec_solved :: int
  sec_total :: int

definition fresh_section :: section_stats where
  "fresh_section = \<lparr>sec_solved = 0, sec_total = 0\<rparr>"

text \<open>
  A Python dictionary keeps its keys in insertion order and \<^verbatim>\<open>json.dump\<close> writes them in
  that order, so \<^verbatim>\<open>stats["sections"]\<close> is an association list: a new key goes to the end,
  a value is updated in place.
\<close>

type_synonym sections_dict = "(string \<times> section_stats) list"

record user_stats =
  username :: string
  timestamp :: string
  solved_count :: int
  total_count :: int
  last_updated :: string
  sections :: sections_dict

section \<open>Stats aggregation (lines 276-296)\<close>

definition has_key :: "string \<Rightarrow> sections_dict \<Rightarrow> bool" where
  "has_key k d = (k \<in> set (map fst d))"

text \<open>\<^verbatim>\<open>if section not in stats["sections"]: stats["sections"][section] = {...}\<close>\<close>

definition ensure_section :: "string \<Rightarrow> sections_dict \<Rightarrow> sections_dict" where
  "ensure_section k d = (if \<not> has_key k d then d @ [(k, fresh_section)] else d)"

text \<open>In-place update of the value stored under a key.\<close>

definition modify :: "string \<Rightarrow> (section_stats \<Rightarrow> section_stats) \<Rightarrow> sections_dict \<Rightarrow> sections_dict" where
  "modify k f d = map (\<lambda>(k', v). if k' = k then (k', f v) else (k', v)) d"

text \<open>Body of the loop at lines 286-290.\<close>

definition solved_step :: "sections_dict \<Rightarrow> problem \<Rightarrow> sections_dict" where
  "solved_step d p =
     modify (section_name p) (\<lambda>v. v\<lparr>sec_solved := sec_solved v + 1\<rparr>) (ensure_section (section_name p) d)"

text \<open>Body of the loop at lines 292-296.\<close>

definition total_step :: "sections_dict \<Rightarrow> problem \<Rightarrow> sections_dict" where
  "total_step d p =
     modify (section_name p) (\<lambda>v. v\<lparr>sec_total := sec_total v + 1\<rparr>) (ensure_section (section_name p) d)"

definition solved_pass :: "sections_dict \<Rightarrow> problem list \<Rightarrow> sections_dict" where
  "solved_pass d ps = foldl solved_step d ps"

definition total_pass :: "sections_dict \<Rightarrow> problem list \<Rightarrow> sections_dict" where
  "total_pass d ps = foldl total_step d ps"

text \<open>
  Lines 276-296: the stats dictionary, then the loop over \<^verbatim>\<open>problems_data["solved"]\<close>, then
  the loop over \<^verbatim>\<open>problems_data["solved"] + problems_data["unsolved"]\<close>. The two
  \<^verbatim>\<open>datetime.now()\<close> strings are arguments.
\<close>

definition compute_stats :: "string \<Rightarrow> string \<Rightarrow> string \<Rightarrow> problems_data \<Rightarrow> user_stats" where
  "compute_stats user stamp updated pd =
     \<lparr>username = user,
      timestamp = stamp,
      solved_count = total_solved pd,
      total_count = total_problems pd,
      last_updated = updated,
      sections = total_pass (solved_pass [] (pd_solved pd)) (pd_solved pd @ pd_unsolved pd)\<rparr>"

text \<open>
  The aggregation as the specification words it: the pass over the solved records
  increments the section's solved counter and its total counter, the pass over solved
  followed by unsolved increments the total counter again.
\<close>

definition spec_solved_step :: "sections_dict \<Rightarrow> problem \<Rightarrow> sections_dict" where
  "spec_solved_step d p =
     modify (section_name p) (\<lambda>v. v\<lparr>sec_solved := sec_solved v + 1, sec_total := sec_total v + 1\<rparr>)
       (ensure_section (section_name p) d)"

definition spec_sections :: "problem list \<Rightarrow> problem list \<Rightarrow> sections_dict" where
  "spec_sections solved_problems unsolved_problems =
     total_pass (foldl spec_solved_step [] solved_problems) (solved_problems @ unsolved_problems)"

text \<open>Reading a counter of a section; a section that is no key has no counters.\<close>

definition in_section :: "string \<Rightarrow> problem list \<Rightarrow> problem list" where
  "in_section s ps = filter (\<lambda>p. section_name p = s) ps"

definition section_count :: "string \<Rightarrow> problem list \<Rightarrow> int" where
  "section_count s ps = int (length (in_section s ps))"

definition counters :: "sections_dict \<Rightarrow> string \<Rightarrow> section_stats" where
  "counters d s = (case map_of d s of None \<Rightarrow> fresh_section | Some v \<Rightarrow> v)"

definition sum_solved :: "sections_dict \<Rightarrow> int" where
  "sum_solved d = sum_list (map (\<lambda>(k, v). sec_solved v) d)"

definition sum_total :: "sections_dict \<Rightarrow> int" where
  "sum_total d = sum_list (map (\<lambda>(k, v). sec_total v) d)"

section \<open>Exceptions and observable effects\<close>

text \<open>
  A call into Selenium, the file system or the environment either returns or raises a
  subclass of \<^verbatim>\<open>Exception\<close>; \<open>Inl e\<close> is the raise, with \<open>e\<close> the text \<^verbatim>\<open>str(e)\<close> that the
  handlers of the source put into their messages.
\<close>

type_synonym exn = string

type_synonym 'a res = "exn + 'a"

text \<open>\<^verbatim>\<open>Path("scraped_data")\<close> and the paths built from it with the \<^verbatim>\<open>/\<close> operator.\<close>

datatype path = BASE_DATA_DIR | Child path string

text \<open>What \<^verbatim>\<open>json.dump\<close> is given for each of the three files (lines 262, 270, 300).\<close>

datatype file_content =
    SolvedFile int "problem list"
  | UnsolvedFile int "problem list"
  | StatsFile user_stats

text \<open>
  The effects of a request, in the order they happen. \<open>ChromeStarted\<close> is recorded when
  \<^verbatim>\<open>webdriver.Chrome(...)\<close> has returned; every other event records that the call was
  made, whatever its outcome.
\<close>

datatype event =
    ChromeStarted
  | QuitCalled
  | Get string
  | SendKeys string string
  | Click
  | Mkdir path
  | Write path file_content
  | Printed string

text \<open>A computation: the events it caused, and its value or the exception it raised.\<close>

type_synonym 'a eff = "event list \<times> 'a res"

definition ret :: "'a \<Rightarrow> 'a eff" where
  "ret x = ([], Inr x)"

definition silent :: "'a res \<Rightarrow> 'a eff" where
  "silent r = ([], r)"

definition call :: "event \<Rightarrow> 'a res \<Rightarrow> 'a eff" where
  "call ev r = ([ev], r)"

definition bind :: "'a eff \<Rightarrow> ('a \<Rightarrow> 'b eff) \<Rightarrow> 'b eff" where
  "bind m f =
     (case m of
        (es, Inl e) \<Rightarrow> (es, Inl e)
      | (es, Inr x) \<Rightarrow> (case f x of (es', r) \<Rightarrow> (es @ es', r)))"

text \<open>\<^verbatim>\<open>try: m  except Exception as e: return h(e)\<close>\<close>

definition catch :: "'a eff \<Rightarrow> (exn \<Rightarrow> 'a) \<Rightarrow> 'a eff" where
  "catch m h = (case m of (es, Inl e) \<Rightarrow> (es, Inr (h e)) | (es, Inr x) \<Rightarrow> (es, Inr x))"

definition events :: "'a eff \<Rightarrow> event list" where
  "events m = fst m"

definition outcome :: "'a eff \<Rightarrow> 'a res" where
  "outcome m = snd m"

section \<open>Strings as Python handles them\<close>

fun starts_with :: "string \<Rightarrow> string \<Rightarrow> bool" where
  "starts_with [] s = True"
| "starts_with (p # ps) [] = False"
| "starts_with (p # ps) (c # cs) = (p = c \<and> starts_with ps cs)"

text \<open>The substring test \<^verbatim>\<open>sub in s\<close>.\<close>

fun py_in :: "string \<Rightarrow> string \<Rightarrow> bool" where
  "py_in sub [] = (sub = [])"
| "py_in sub (c # cs) = (starts_with sub (c # cs) \<or> py_in sub cs)"

text \<open>The ASCII characters for which \<^verbatim>\<open>str.isspace\<close> holds.\<close>

definition is_space :: "char \<Rightarrow> bool" where
  "is_space c = (of_char c \<in> {9, 10, 11, 12, 13, 28, 29, 30, 31, 32 :: nat})"

text \<open>\<^verbatim>\<open>s.split()\<close>: the maximal runs of characters that are not whitespace.\<close>

fun split_ws :: "string \<Rightarrow> string \<Rightarrow> string list" where
  "split_ws cur [] = (if cur = [] then [] else [cur])"
| "split_ws cur (c # cs) =
     (if is_space c then (if cur = [] then split_ws [] cs else cur # split_ws [] cs)
      else split_ws (cur @ [c]) cs)"

definition py_split :: "string \<Rightarrow> string list" where
  "py_split s = split_ws [] s"

text \<open>\<^verbatim>\<open>str(n)\<close> of an integer, as the f-string of line 245 formats the user number.\<close>

fun digits :: "nat \<Rightarrow> string" where
  "digits n =
     (if n < 10 then [char_of (48 + n)] else digits (n div 10) @ [char_of (48 + n mod 10)])"

definition str_int :: "int \<Rightarrow> string" where
  "str_int i = (if i < 0 then CHR ''-'' # digits (nat (- i)) else digits (nat i))"

section \<open>The world a request runs in\<close>

text \<open>
  The login page as the driver meets it: the outcome of each Selenium call of
  \<^verbatim>\<open>login_to_cses\<close> in source order, and the title read at line 165.
\<close>

record login_page =
  lp_get :: "unit res"
  lp_nick :: "unit res"
  lp_nick_clear :: "unit res"
  lp_nick_send :: "unit res"
  lp_pass :: "unit res"
  lp_pass_clear :: "unit res"
  lp_pass_send :: "unit res"
  lp_submit :: "unit res"
  lp_click :: "unit res"
  lp_title :: "string res"

text \<open>
  The rendered problem list. An anchor gives its text and its \<^verbatim>\<open>href\<close> attribute, a task
  entry gives its anchor and its \<^verbatim>\<open>class\<close> attribute (\<^verbatim>\<open>get_attribute\<close> returns \<^verbatim>\<open>None\<close>
  for an attribute that is absent), a task list gives the text of its \<^verbatim>\<open>h2\<close> heading and
  its task entries; each lookup may raise.
\<close>

record anchor =
  a_text :: "string res"
  a_href :: "string option res"

record task =
  t_anchor :: "anchor res"
  t_class :: "string option res"

record task_list =
  tl_heading :: "string res"
  tl_tasks :: "task list res"

record problem_page =
  pp_get :: "unit res"
  pp_wait :: "unit res"
  pp_task_lists :: "task_list list res"

text \<open>
  Everything outside the program that one \<^verbatim>\<open>/scrape/<n>\<close> request meets: the browser
  start, the environment variables \<^verbatim>\<open>CF_USERNAME_<n>\<close> and \<^verbatim>\<open>CF_PASSWORD_<n>\<close>, the file
  system, the two pages, the clock and the outcome of \<^verbatim>\<open>driver.quit()\<close>.
\<close>

record world =
  chrome :: "unit res"
  implicitly_wait :: "unit res"
  cf_username :: "int \<Rightarrow> string option"
  cf_password :: "int \<Rightarrow> string option"
  mkdir :: "unit res"
  login :: login_page
  problemset :: problem_page
  now_timestamp :: string
  now_last_updated :: string
  write_solved :: "unit res"
  write_unsolved :: "unit res"
  write_stats :: "unit res"
  quit :: "unit res"

section \<open>Session set-up and login (lines 122-169)\<close>

definition ensure_user_directory :: "world \<Rightarrow> string \<Rightarrow> path eff" where
  "ensure_user_directory w user =
     (let user_dir = Child BASE_DATA_DIR user
      in bind (call (Mkdir user_dir) (mkdir w)) (\<lambda>_. ret user_dir))"

definition setup_driver :: "world \<Rightarrow> unit eff" where
  "setup_driver w =
     bind (silent (chrome w)) (\<lambda>_.
     bind (call ChromeStarted (Inr ())) (\<lambda>_.
     silent (implicitly_wait w)))"

text \<open>
  Lines 145-167. The pauses (\<^verbatim>\<open>time.sleep(random.uniform(a, b))\<close>) change no result and are
  left out; the driver's calls are made in the order of the source, and the first one that
  raises ends the sequence.
\<close>

definition login_steps :: "login_page \<Rightarrow> string \<Rightarrow> string \<Rightarrow> (bool \<times> string) eff" where
  "login_steps lp user password =
     bind (call (Get ''https://cses.fi/login'') (lp_get lp)) (\<lambda>_.
     bind (silent (lp_nick lp)) (\<lambda>_.
     bind (silent (lp_nick_clear lp)) (\<lambda>_.
     bind (call (SendKeys ''nick'' user) (lp_nick_send lp)) (\<lambda>_.
     bind (silent (lp_pass lp)) (\<lambda>_.
     bind (silent (lp_pass_clear lp)) (\<lambda>_.
     bind (call (SendKeys ''pass'' password) (lp_pass_send lp)) (\<lambda>_.
     bind (silent (lp_submit lp)) (\<lambda>_.
     bind (call Click (lp_click lp)) (\<lambda>_.
     bind (silent (lp_title lp)) (\<lambda>title.
       if py_in ''Login'' title then ret (False, ''Login failed. Please check credentials.'')
       else ret (True, ''Login successful'')))))))))))"

definition login_to_cses :: "login_page \<Rightarrow> string \<Rightarrow> string \<Rightarrow> (bool \<times> string) eff" where
  "login_to_cses lp user password =
     catch (login_steps lp user password) (\<lambda>e. (False, ''Login error: '' @ e))"

text \<open>The outcomes of the Selenium calls of lines 145-161, in the order they are made.\<close>

definition login_calls :: "login_page \<Rightarrow> unit res list" where
  "login_calls lp =
     [lp_get lp, lp_nick lp, lp_nick_clear lp, lp_nick_send lp, lp_pass lp, lp_pass_clear lp,
      lp_pass_send lp, lp_submit lp, lp_click lp]"

section \<open>Problem extraction (lines 171-230)\<close>

definition bind_res :: "'a res \<Rightarrow> ('a \<Rightarrow> 'b res) \<Rightarrow> 'b res" where
  "bind_res r f = (case r of Inl e \<Rightarrow> Inl e | Inr x \<Rightarrow> f x)"

text \<open>\<^verbatim>\<open>problem.get_attribute("class").split()\<close>: \<^verbatim>\<open>None\<close> has no \<^verbatim>\<open>split\<close>.\<close>

definition class_tokens :: "string option \<Rightarrow> string list res" where
  "class_tokens c =
     (case c of
        None \<Rightarrow> Inl (CHR 0x27 # ''NoneType'' @ CHR 0x27 # '' object has no attribute '' @ CHR 0x27 # ''split'' @ [CHR 0x27])
      | Some s \<Rightarrow> Inr (py_split s))"

text \<open>Lines 192-205: the record of one task entry, or the exception that line 212 catches.\<close>

definition problem_data :: "string \<Rightarrow> task \<Rightarrow> problem res" where
  "problem_data sec t =
     bind_res (t_anchor t) (\<lambda>problem_link.
     bind_res (a_text problem_link) (\<lambda>nm.
     bind_res (a_href problem_link) (\<lambda>href.
     bind_res (t_class t) (\<lambda>c.
     bind_res (class_tokens c) (\<lambda>classes.
       Inr \<lparr>name = nm, link = href, section_name = sec,
            solved = list_ex (py_in ''full'') classes\<rparr>)))))"

text \<open>The two lists being filled and the lines printed so far.\<close>

record extraction =
  solved_problems :: "problem list"
  unsolved_problems :: "problem list"
  printed :: "string list"

definition problem_step :: "string \<Rightarrow> extraction \<Rightarrow> task \<Rightarrow> extraction" where
  "problem_step sec st t =
     (case problem_data sec t of
        Inl e \<Rightarrow> st\<lparr>printed := printed st @ [''Error processing problem: '' @ e]\<rparr>
      | Inr p \<Rightarrow>
          if solved p then st\<lparr>solved_problems := solved_problems st @ [p]\<rparr>
          else st\<lparr>unsolved_problems := unsolved_problems st @ [p]\<rparr>)"

definition section_step :: "extraction \<Rightarrow> task_list \<Rightarrow> extraction" where
  "section_step st tlist =
     (case bind_res (tl_heading tlist) (\<lambda>sec. bind_res (tl_tasks tlist) (\<lambda>problems. Inr (sec, problems))) of
        Inl e \<Rightarrow> st\<lparr>printed := printed st @ [''Error processing section: '' @ e]\<rparr>
      | Inr (sec, problems) \<Rightarrow> foldl (problem_step sec) st problems)"

definition extract_problems :: "task_list list \<Rightarrow> extraction" where
  "extract_problems task_lists =
     foldl section_step \<lparr>solved_problems = [], unsolved_problems = [], printed = []\<rparr> task_lists"

text \<open>
  The records of the entries of one task list whose processing raises nothing, in page
  order; none when reading the heading or the entries of the task list raises.
\<close>

definition processed :: "task_list \<Rightarrow> problem list" where
  "processed tlist =
     (case (tl_heading tlist, tl_tasks tlist) of
        (Inr sec, Inr problems) \<Rightarrow>
          concat (map (\<lambda>t. case problem_data sec t of Inl e \<Rightarrow> [] | Inr p \<Rightarrow> [p]) problems)
      | _ \<Rightarrow> [])"

text \<open>
  The result pair of \<^verbatim>\<open>scrape_problem_data\<close>: \<open>Inl msg\<close> is \<^verbatim>\<open>(False, msg)\<close> and \<open>Inr d\<close> is
  \<^verbatim>\<open>(True, d)\<close>.
\<close>

definition scrape_steps :: "problem_page \<Rightarrow> (string + problems_data) eff" where
  "scrape_steps pp =
     bind (call (Get ''https://cses.fi/problemset/list/'') (pp_get pp)) (\<lambda>_.
     bind (silent (pp_wait pp)) (\<lambda>_.
     bind (silent (pp_task_lists pp)) (\<lambda>task_lists.
       let st = extract_problems task_lists
       in (map Printed (printed st),
           Inr (if solved_problems st = [] \<and> unsolved_problems st = []
                then Inl ''No problems found on the page''
                else Inr (mk_problems_data (solved_problems st) (unsolved_problems st)))))))"

definition scrape_problem_data :: "problem_page \<Rightarrow> (string + problems_data) eff" where
  "scrape_problem_data pp = catch (scrape_steps pp) (\<lambda>e. Inl (''Scraping error: '' @ e))"

section \<open>The scrape request (lines 232-318)\<close>

text \<open>The JSON body of a response and its status code; 200 where the source gives none.\<close>

record success =
  message :: string
  reported_solved :: int
  reported_total :: int
  solved_file :: path
  unsolved_file :: path
  stats_file :: path

datatype body = Error string | Success success

type_synonym response = "body \<times> nat"

text \<open>Python's truth value of what \<^verbatim>\<open>os.getenv\<close> returned: \<^verbatim>\<open>None\<close> and \<^verbatim>\<open>""\<close> are false.\<close>

definition truthy :: "string option \<Rightarrow> bool" where
  "truthy v = (case v of None \<Rightarrow> False | Some s \<Rightarrow> s \<noteq> [])"

text \<open>Lines 257-312: the three files and the success response.\<close>

definition save_snapshot :: "world \<Rightarrow> string \<Rightarrow> path \<Rightarrow> problems_data \<Rightarrow> response eff" where
  "save_snapshot w user user_dir pd =
     (let stamp = now_timestamp w;
          solved_path = Child user_dir (''solved_'' @ stamp @ ''.json'');
          unsolved_path = Child user_dir (''unsolved_'' @ stamp @ ''.json'');
          stats = compute_stats user stamp (now_last_updated w) pd;
          stats_path = Child user_dir ''stats.json''
      in
        bind (call (Write solved_path (SolvedFile (total_solved pd) (pd_solved pd)))
                (write_solved w)) (\<lambda>_.
        bind (call (Write unsolved_path
                (UnsolvedFile (int (length (pd_unsolved pd))) (pd_unsolved pd)))
                (write_unsolved w)) (\<lambda>_.
        bind (call (Write stats_path (StatsFile stats)) (write_stats w)) (\<lambda>_.
        ret (Success \<lparr>message = ''Data saved for user '' @ user,
                       reported_solved = total_solved pd,
                       reported_total = total_problems pd,
                       solved_file = solved_path,
                       unsolved_file = unsolved_path,
                       stats_file = stats_path\<rparr>, 200)))))"

text \<open>Lines 247-255, for credentials that are present.\<close>

definition scrape_user :: "world \<Rightarrow> string \<Rightarrow> string \<Rightarrow> response eff" where
  "scrape_user w user password =
     bind (ensure_user_directory w user) (\<lambda>user_dir.
     bind (login_to_cses (login w) user password) (\<lambda>(success, msg).
       if \<not> success then ret (Error msg, 401)
       else
         bind (scrape_problem_data (problemset w)) (\<lambda>r.
           case r of
             Inl problems_msg \<Rightarrow> ret (Error problems_msg, 500)
           | Inr pd \<Rightarrow> save_snapshot w user user_dir pd)))"

text \<open>The body of the \<^verbatim>\<open>try\<close> block, lines 236-312.\<close>

definition scrape_try :: "world \<Rightarrow> int \<Rightarrow> response eff" where
  "scrape_try w user_number =
     bind (setup_driver w) (\<lambda>driver.
       if \<not> truthy (cf_username w user_number) \<or> \<not> truthy (cf_password w user_number)
       then ret (Error (''User '' @ str_int user_number @ '' credentials not found''), 404)
       else scrape_user w (the (cf_username w user_number)) (the (cf_password w user_number)))"

text \<open>
  The whole route. The variable \<^verbatim>\<open>driver\<close> is \<^verbatim>\<open>None\<close> until the assignment of line 236
  completes, which it does exactly when \<^verbatim>\<open>setup_driver\<close> returns; the \<^verbatim>\<open>finally\<close> block
  then calls \<^verbatim>\<open>driver.quit()\<close>, and an exception of that call replaces the response.
\<close>

definition scrape :: "world \<Rightarrow> int \<Rightarrow> response eff" where
  "scrape w user_number =
     (case catch (scrape_try w user_number) (\<lambda>e. (Error e, 500)) of
        (es, r) \<Rightarrow>
          if outcome (setup_driver w) = Inr ()
          then (es @ [QuitCalled], bind_res (quit w) (\<lambda>_. r))
          else (es, r))"

text \<open>What a request wrote, and the stats documents among it.\<close>

definition is_write :: "event \<Rightarrow> bool" where
  "is_write ev = (case ev of Write p c \<Rightarrow> True | _ \<Rightarrow> False)"

definition is_mkdir :: "event \<Rightarrow> bool" where
  "is_mkdir ev = (case ev of Mkdir p \<Rightarrow> True | _ \<Rightarrow> False)"

definition is_printed :: "event \<Rightarrow> bool" where
  "is_printed ev = (case ev of Printed s \<Rightarrow> True | _ \<Rightarrow> False)"

definition is_browser_use :: "event \<Rightarrow> bool" where
  "is_browser_use ev =
     (case ev of Get u \<Rightarrow> True | SendKeys f t \<Rightarrow> True | Click \<Rightarrow> True | _ \<Rightarrow> False)"

fun stats_written :: "event list \<Rightarrow> user_stats list" where
  "stats_written [] = []"
| "stats_written (Write p (StatsFile st) # es) = st # stats_written es"
| "stats_written (ev # es) = stats_written es"

section \<open>The leaderboard (lines 320-343)\<close>

text \<open>
  One entry of \<^verbatim>\<open>BASE_DATA_DIR.iterdir()\<close>: not a directory, a directory without
  \<^verbatim>\<open>stats.json\<close>, or a directory whose \<^verbatim>\<open>stats.json\<close> is opened and parsed, which gives a
  stats document with integer counts or raises.
\<close>

datatype stats_json = Absent | Present "user_stats res"

datatype dir_entry = NotADirectory | Directory stats_json

text \<open>A stats document with the key \<^verbatim>\<open>progress\<close> added at line 330.\<close>

record 'f ranked =
  stats :: user_stats
  progress :: 'f

text \<open>
  The division \<^verbatim>\<open>a / b\<close> of two Python integers gives a float. Floating point is not
  modelled: \<open>fdiv a b\<close> stands for the float nearest to the quotient for \<open>b \<noteq> 0\<close>, or \<open>None\<close>
  where Python raises \<^verbatim>\<open>OverflowError\<close>, and \<open>times100\<close> for the float product with 100.
  Division by zero raises \<^verbatim>\<open>ZeroDivisionError\<close> before any float is computed.
\<close>

definition py_truediv :: "(int \<Rightarrow> int \<Rightarrow> 'f option) \<Rightarrow> int \<Rightarrow> int \<Rightarrow> 'f res" where
  "py_truediv fdiv a b =
     (if b = 0 then Inl ''division by zero''
      else case fdiv a b of
             None \<Rightarrow> Inl ''integer division result too large for a float''
           | Some q \<Rightarrow> Inr q)"

text \<open>Lines 325-331 for one entry: nothing to append, or the document with its progress.\<close>

definition load_entry ::
  "(int \<Rightarrow> int \<Rightarrow> 'f option) \<Rightarrow> ('f \<Rightarrow> 'f) \<Rightarrow> dir_entry \<Rightarrow> 'f ranked option res" where
  "load_entry fdiv times100 entry =
     (case entry of
        NotADirectory \<Rightarrow> Inr None
      | Directory Absent \<Rightarrow> Inr None
      | Directory (Present doc) \<Rightarrow>
          bind_res doc (\<lambda>st.
          bind_res (py_truediv fdiv (solved_count st) (total_count st)) (\<lambda>q.
            Inr (Some \<lparr>stats = st, progress = times100 q\<rparr>))))"

fun collect ::
  "(int \<Rightarrow> int \<Rightarrow> 'f option) \<Rightarrow> ('f \<Rightarrow> 'f) \<Rightarrow> 'f ranked list \<Rightarrow> dir_entry list
     \<Rightarrow> 'f ranked list res" where
  "collect fdiv times100 users_data [] = Inr users_data"
| "collect fdiv times100 users_data (entry # entries) =
     (case load_entry fdiv times100 entry of
        Inl e \<Rightarrow> Inl e
      | Inr None \<Rightarrow> collect fdiv times100 users_data entries
      | Inr (Some u) \<Rightarrow> collect fdiv times100 (users_data @ [u]) entries)"

text \<open>
  \<^verbatim>\<open>users_data.sort(key=lambda x: x['solved_count'], reverse=True)\<close>: Python's sort is
  stable, also with \<^verbatim>\<open>reverse=True\<close>. Each element is put, from the last to the first, in
  front of the first element whose key is not greater than its own.
\<close>

fun insert_desc :: "'f ranked \<Rightarrow> 'f ranked list \<Rightarrow> 'f ranked list" where
  "insert_desc u [] = [u]"
| "insert_desc u (v # vs) =
     (if solved_count (stats u) < solved_count (stats v) then v # insert_desc u vs
      else u # v # vs)"

definition sort_desc :: "'f ranked list \<Rightarrow> 'f ranked list" where
  "sort_desc users = foldr insert_desc users []"

text \<open>The response: the template rendered with the ranking and the time, or the error.\<close>

datatype 'f view = Leaderboard "'f ranked list" string | Failure string nat

definition leaderboard ::
  "(int \<Rightarrow> int \<Rightarrow> 'f option) \<Rightarrow> ('f \<Rightarrow> 'f) \<Rightarrow> dir_entry list res \<Rightarrow> string \<Rightarrow> 'f view" where
  "leaderboard fdiv times100 iterdir now =
     (case bind_res iterdir (collect fdiv times100 []) of
        Inl e \<Rightarrow> Failure e 500
      | Inr users_data \<Rightarrow> Leaderboard (sort_desc users_data) now)"

text \<open>The stats documents that the entries hold, in enumeration order.\<close>

fun stored :: "dir_entry list \<Rightarrow> user_stats list" where
  "stored [] = []"
| "stored (Directory (Present (Inr st)) # entries) = st # stored entries"
| "stored (entry # entries) = stored entries"

definition unreadable :: "dir_entry \<Rightarrow> bool" where
  "unreadable entry = (case entry of Directory (Present (Inl e)) \<Rightarrow> True | _ \<Rightarrow> False)"

section \<open>Concrete inputs\<close>

definition example_problem :: "string \<Rightarrow> string \<Rightarrow> bool \<Rightarrow> problem" where
  "example_problem sec nm done =
     \<lparr>name = nm, link = Some (''https://cses.fi/problemset/task/'' @ nm),
      section_name = sec, solved = done\<rparr>"

definition example_task :: "string \<Rightarrow> string \<Rightarrow> task" where
  "example_task nm cls =
     \<lparr>t_anchor = Inr \<lparr>a_text = Inr nm, a_href = Inr (Some (''https://cses.fi/problemset/task/'' @ nm))\<rparr>,
      t_class = Inr (Some cls)\<rparr>"

definition broken_task :: task where
  "broken_task = \<lparr>t_anchor = Inl ''no such element'', t_class = Inr (Some ''task'')\<rparr>"

definition good_login :: login_page where
  "good_login =
     \<lparr>lp_get = Inr (), lp_nick = Inr (), lp_nick_clear = Inr (), lp_nick_send = Inr (),
      lp_pass = Inr (), lp_pass_clear = Inr (), lp_pass_send = Inr (), lp_submit = Inr (),
      lp_click = Inr (), lp_title = Inr ''CSES - CSES Problem Set''\<rparr>"

definition example_page :: problem_page where
  "example_page =
     \<lparr>pp_get = Inr (), pp_wait = Inr (),
      pp_task_lists = Inr
        [\<lparr>tl_heading = Inr ''Introductory Problems'',
          tl_tasks = Inr [example_task ''1068'' ''task full'', broken_task,
                          example_task ''1083'' ''task'']\<rparr>,
         \<lparr>tl_heading = Inl ''no such element'', tl_tasks = Inr [example_task ''1640'' ''task'']\<rparr>,
         \<lparr>tl_heading = Inr ''Graph Algorithms'',
          tl_tasks = Inr [example_task ''1192'' ''task'']\<rparr>]\<rparr>"

definition empty_page :: problem_page where
  "empty_page = \<lparr>pp_get = Inr (), pp_wait = Inr (), pp_task_lists = Inr []\<rparr>"

definition example_world :: world where
  "example_world =
     \<lparr>chrome = Inr (), implicitly_wait = Inr (),
      cf_username = (\<lambda>n. if n = 1 then Some ''alice'' else None),
      cf_password = (\<lambda>n. if n = 1 then Some ''secret'' else None),
      mkdir = Inr (), login = good_login, problemset = example_page,
      now_timestamp = ''20240101_120000'', now_last_updated = ''2024-01-01 12:00:00'',
      write_solved = Inr (), write_unsolved = Inr (), write_stats = Inr (), quit = Inr ()\<rparr>"

definition example_stats :: "string \<Rightarrow> int \<Rightarrow> int \<Rightarrow> user_stats" where
  "example_stats user s t =
     \<lparr>username = user, timestamp = ''20240101_120000'', solved_count = s, total_count = t,
      last_updated = ''2024-01-01 12:00:00'', sections = []\<rparr>"

text \<open>Exact fractions in place of floats, for running the leaderboard on an example.\<close>

definition exact_div :: "int \<Rightarrow> int \<Rightarrow> (int \<times> int) option" where
  "exact_div a b = Some (a, b)"

definition exact_times100 :: "int \<times> int \<Rightarrow> int \<times> int" where
  "exact_times100 q = (fst q * 100, snd q)"

section \<open>Lemmas on the sections dictionary\<close>

lemma keys_modify: "map fst (modify k f d) = map fst d"
  by (induction d) (auto simp: modify_def)

lemma keys_ensure_section:
  "map fst (ensure_section k d) = (if k \<in> set (map fst d) then map fst d else map fst d @ [k])"
  by (simp add: ensure_section_def has_key_def)

lemma distinct_ensure_section:
  "distinct (map fst d) \<Longrightarrow> distinct (map fst (ensure_section k d))"
  by (simp add: keys_ensure_section)

lemma map_of_modify:
  "map_of (modify k f d) s = (if s = k then map_option f (map_of d s) else map_of d s)"
  by (induction d) (auto simp: modify_def)

lemma map_of_ensure_section:
  "map_of (ensure_section k d) s =
     (if s = k \<and> map_of d s = None then Some fresh_section else map_of d s)"
proof (cases "has_key k d")
  case True
  then have "map_of d k \<noteq> None"
    by (simp add: has_key_def map_of_eq_None_iff)
  with True show ?thesis
    by (auto simp: ensure_section_def)
next
  case False
  then have "map_of d k = None"
    by (simp add: has_key_def map_of_eq_None_iff)
  with False show ?thesis
    by (auto simp: ensure_section_def map_add_def split: option.splits)
qed

lemma counters_modify_ensure:
  "counters (modify k f (ensure_section k d)) s =
     (if s = k then f (counters d s) else counters d s)"
  by (auto simp: counters_def map_of_modify map_of_ensure_section split: option.splits)

lemma keys_solved_step:
  "set (map fst (solved_step d p)) = insert (section_name p) (set (map fst d))"
  by (auto simp: solved_step_def keys_modify keys_ensure_section)

lemma keys_total_step:
  "set (map fst (total_step d p)) = insert (section_name p) (set (map fst d))"
  by (auto simp: total_step_def keys_modify keys_ensure_section)

lemma distinct_solved_step:
  "distinct (map fst d) \<Longrightarrow> distinct (map fst (solved_step d p))"
  by (simp add: solved_step_def keys_modify distinct_ensure_section)

lemma distinct_total_step:
  "distinct (map fst d) \<Longrightarrow> distinct (map fst (total_step d p))"
  by (simp add: total_step_def keys_modify distinct_ensure_section)

lemma keys_solved_pass:
  "set (map fst (solved_pass d ps)) = set (map fst d) \<union> section_name ` set ps"
  unfolding solved_pass_def
  by (induction ps arbitrary: d) (auto simp: keys_solved_step simp del: set_map)

lemma keys_total_pass:
  "set (map fst (total_pass d ps)) = set (map fst d) \<union> section_name ` set ps"
  unfolding total_pass_def
  by (induction ps arbitrary: d) (auto simp: keys_total_step simp del: set_map)

lemma distinct_solved_pass:
  "distinct (map fst d) \<Longrightarrow> distinct (map fst (solved_pass d ps))"
  unfolding solved_pass_def
  by (induction ps arbitrary: d) (simp_all add: distinct_solved_step)

lemma distinct_total_pass:
  "distinct (map fst d) \<Longrightarrow> distinct (map fst (total_pass d ps))"
  unfolding total_pass_def
  by (induction ps arbitrary: d) (simp_all add: distinct_total_step)

lemma counters_solved_step:
  "counters (solved_step d p) s =
     (if s = section_name p then (counters d s)\<lparr>sec_solved := sec_solved (counters d s) + 1\<rparr>
      else counters d s)"
  by (simp add: solved_step_def counters_modify_ensure)

lemma counters_total_step:
  "counters (total_step d p) s =
     (if s = section_name p then (counters d s)\<lparr>sec_total := sec_total (counters d s) + 1\<rparr>
      else counters d s)"
  by (simp add: total_step_def counters_modify_ensure)

lemma counters_solved_pass:
  "counters (solved_pass d ps) s =
     (counters d s)\<lparr>sec_solved := sec_solved (counters d s) + section_count s ps\<rparr>"
  unfolding solved_pass_def
  by (induction ps arbitrary: d)
     (simp_all add: counters_solved_step section_count_def in_section_def)

lemma counters_total_pass:
  "counters (total_pass d ps) s =
     (counters d s)\<lparr>sec_total := sec_total (counters d s) + section_count s ps\<rparr>"
  unfolding total_pass_def
  by (induction ps arbitrary: d)
     (simp_all add: counters_total_step section_count_def in_section_def)

lemma map_of_counters:
  "map_of d s = (if s \<in> set (map fst d) then Some (counters d s) else None)"
  by (auto simp: counters_def map_of_eq_None_iff split: option.splits)

lemma section_count_append:
  "section_count s (xs @ ys) = section_count s xs + section_count s ys"
  by (simp add: section_count_def in_section_def)

lemma section_count_nonneg: "0 \<le> section_count s ps"
  by (simp add: section_count_def)

lemma sum_total_ensure: "sum_total (ensure_section k d) = sum_total d"
  by (simp add: sum_total_def ensure_section_def fresh_section_def)

lemma sum_solved_ensure: "sum_solved (ensure_section k d) = sum_solved d"
  by (simp add: sum_solved_def ensure_section_def fresh_section_def)

lemma modify_absent_key:
  "k \<notin> set (map fst d) \<Longrightarrow> modify k f d = d"
  by (induction d) (auto simp: modify_def)

lemma sum_total_modify:
  "distinct (map fst d) \<Longrightarrow> k \<in> set (map fst d) \<Longrightarrow>
   sum_total (modify k f d) = sum_total d - sec_total (counters d k) + sec_total (f (counters d k))"
proof (induction d)
  case Nil
  then show ?case by simp
next
  case (Cons a d)
  obtain k' v where a: "a = (k', v)" by (cases a)
  show ?case
  proof (cases "k' = k")
    case True
    with Cons.prems a have "k \<notin> set (map fst d)" by auto
    then have "modify k f d = d" by (rule modify_absent_key)
    then have "modify k f (a # d) = (k, f v) # d"
      using a True by (simp add: modify_def)
    then show ?thesis using a True by (simp add: sum_total_def counters_def)
  next
    case False
    with Cons.prems a have "distinct (map fst d)" "k \<in> set (map fst d)" by auto
    then have "sum_total (modify k f d) = sum_total d - sec_total (counters d k) + sec_total (f (counters d k))"
      by (rule Cons.IH)
    moreover have "counters (a # d) k = counters d k" using a False by (simp add: counters_def)
    moreover have "modify k f (a # d) = a # modify k f d" using a False by (simp add: modify_def)
    ultimately show ?thesis by (simp add: sum_total_def)
  qed
qed

lemma sum_solved_modify:
  "distinct (map fst d) \<Longrightarrow> k \<in> set (map fst d) \<Longrightarrow>
   sum_solved (modify k f d) = sum_solved d - sec_solved (counters d k) + sec_solved (f (counters d k))"
proof (induction d)
  case Nil
  then show ?case by simp
next
  case (Cons a d)
  obtain k' v where a: "a = (k', v)" by (cases a)
  show ?case
  proof (cases "k' = k")
    case True
    with Cons.prems a have "k \<notin> set (map fst d)" by auto
    then have "modify k f d = d" by (rule modify_absent_key)
    then have "modify k f (a # d) = (k, f v) # d"
      using a True by (simp add: modify_def)
    then show ?thesis using a True by (simp add: sum_solved_def counters_def)
  next
    case False
    with Cons.prems a have "distinct (map fst d)" "k \<in> set (map fst d)" by auto
    then have "sum_solved (modify k f d) = sum_solved d - sec_solved (counters d k) + sec_solved (f (counters d k))"
      by (rule Cons.IH)
    moreover have "counters (a # d) k = counters d k" using a False by (simp add: counters_def)
    moreover have "modify k f (a # d) = a # modify k f d" using a False by (simp add: modify_def)
    ultimately show ?thesis by (simp add: sum_solved_def)
  qed
qed

lemma key_ensure: "k \<in> set (map fst (ensure_section k d))"
  by (simp add: keys_ensure_section)

lemma sums_solved_step:
  assumes "distinct (map fst d)"
  shows "sum_solved (solved_step d p) = sum_solved d + 1"
    and "sum_total (solved_step d p) = sum_total d"
  using sum_solved_modify [OF distinct_ensure_section [OF assms] key_ensure, of "section_name p"]
        sum_total_modify [OF distinct_ensure_section [OF assms] key_ensure, of "section_name p"]
  by (simp_all add: solved_step_def sum_solved_ensure sum_total_ensure)

lemma sums_total_step:
  assumes "distinct (map fst d)"
  shows "sum_solved (total_step d p) = sum_solved d"
    and "sum_total (total_step d p) = sum_total d + 1"
  using sum_solved_modify [OF distinct_ensure_section [OF assms] key_ensure, of "section_name p"]
        sum_total_modify [OF distinct_ensure_section [OF assms] key_ensure, of "section_name p"]
  by (simp_all add: total_step_def sum_solved_ensure sum_total_ensure)

lemma sums_solved_pass:
  "distinct (map fst d) \<Longrightarrow>
   sum_solved (solved_pass d ps) = sum_solved d + int (length ps) \<and>
   sum_total (solved_pass d ps) = sum_total d"
  unfolding solved_pass_def
  by (induction ps arbitrary: d) (simp_all add: sums_solved_step distinct_solved_step)

lemma sums_total_pass:
  "distinct (map fst d) \<Longrightarrow>
   sum_solved (total_pass d ps) = sum_solved d \<and>
   sum_total (total_pass d ps) = sum_total d + int (length ps)"
  unfolding total_pass_def
  by (induction ps arbitrary: d) (simp_all add: sums_total_step distinct_total_step)

section \<open>The stats aggregator\<close>

lemma counters_empty: "counters [] s = fresh_section"
  by (simp add: counters_def)

lemma counters_sections:
  "counters (sections (compute_stats u t l (mk_problems_data sv un))) s =
     \<lparr>sec_solved = section_count s sv, sec_total = section_count s (sv @ un)\<rparr>"
  by (simp add: compute_stats_def mk_problems_data_def counters_total_pass counters_solved_pass
      counters_empty fresh_section_def)

lemma keys_sections:
  "set (map fst (sections (compute_stats u t l (mk_problems_data sv un))))
     = section_name ` set (sv @ un)"
  by (auto simp: compute_stats_def mk_problems_data_def keys_total_pass keys_solved_pass
      simp del: set_map)

lemma distinct_sections:
  "distinct (map fst (sections (compute_stats u t l (mk_problems_data sv un))))"
  by (simp add: compute_stats_def distinct_total_pass distinct_solved_pass)

lemma sums_sections:
  "sum_solved (sections (compute_stats u t l (mk_problems_data sv un))) = int (length sv)"
  "sum_total (sections (compute_stats u t l (mk_problems_data sv un)))
     = int (length sv) + int (length un)"
proof -
  have d: "distinct (map fst (solved_pass [] sv))"
    by (simp add: distinct_solved_pass)
  have s: "sum_solved (solved_pass [] sv) = int (length sv)" "sum_total (solved_pass [] sv) = 0"
    using sums_solved_pass [of "[]" sv] by (simp_all add: sum_solved_def sum_total_def)
  show "sum_solved (sections (compute_stats u t l (mk_problems_data sv un))) = int (length sv)"
    using sums_total_pass [OF d, of "sv @ un"] s
    by (simp add: compute_stats_def mk_problems_data_def)
  show "sum_total (sections (compute_stats u t l (mk_problems_data sv un)))
          = int (length sv) + int (length un)"
    using sums_total_pass [OF d, of "sv @ un"] s
    by (simp add: compute_stats_def mk_problems_data_def)
qed

text \<open>
  Claim C1, as the code has it. The sections of the stats are built in two passes. The
  first pass, over the solved records, increments only the solved counter of the record's
  section: after it, every section has as solved counter the number of solved records in
  it and a total counter of 0. The second pass, over solved followed by unsolved, adds to
  a section's total counter the number of records of that section and leaves the solved
  counter alone. So a solved record contributes exactly once to its section's total: the
  total is the number of solved plus the number of unsolved records of the section.
\<close>

theorem two_pass_counters:
  "sections (compute_stats u t l (mk_problems_data sv un))
     = total_pass (solved_pass [] sv) (sv @ un)
   \<and> counters (solved_pass [] sv) s = \<lparr>sec_solved = section_count s sv, sec_total = 0\<rparr>
   \<and> counters (total_pass d ps) s
       = (counters d s)\<lparr>sec_total := sec_total (counters d s) + section_count s ps\<rparr>
   \<and> counters (sections (compute_stats u t l (mk_problems_data sv un))) s
       = \<lparr>sec_solved = section_count s sv,
          sec_total = section_count s sv + section_count s un\<rparr>"
  by (simp add: counters_sections section_count_append counters_total_pass counters_solved_pass)
     (simp add: compute_stats_def mk_problems_data_def counters_empty fresh_section_def)

text \<open>
  Claim C1 as the specification states it fails: with one solved record and no unsolved
  one, the code gives the section a total of 1, where counting the solved record in both
  passes gives 2.
\<close>

theorem two_pass_counterexample:
  "map_of (sections (compute_stats ''alice'' ''20240101_120000'' ''2024-01-01 12:00:00''
        (mk_problems_data [example_problem ''Intro'' ''A'' True] []))) ''Intro''
     = Some \<lparr>sec_solved = 1, sec_total = 1\<rparr>
   \<and> map_of (spec_sections [example_problem ''Intro'' ''A'' True] []) ''Intro''
     = Some \<lparr>sec_solved = 1, sec_total = 2\<rparr>"
  by (simp add: compute_stats_def mk_problems_data_def total_pass_def solved_pass_def
      total_step_def solved_step_def spec_sections_def spec_solved_step_def modify_def
      ensure_section_def has_key_def fresh_section_def example_problem_def)

theorem two_pass_counters_witness:
  "counters (sections (compute_stats ''alice'' ''20240101_120000'' ''2024-01-01 12:00:00''
        (mk_problems_data [example_problem ''Intro'' ''A'' True]
           [example_problem ''Intro'' ''C'' False]))) ''Intro''
     = \<lparr>sec_solved = 1, sec_total = 2\<rparr>"
  using two_pass_counters [of "''alice''" "''20240101_120000''" "''2024-01-01 12:00:00''"
      "[example_problem ''Intro'' ''A'' True]" "[example_problem ''Intro'' ''C'' False]"
      "''Intro''" "[]" "[]", THEN conjunct2, THEN conjunct2, THEN conjunct2]
  by (simp add: section_count_def in_section_def example_problem_def)

text \<open>
  Claim C3. For every section name \<open>s\<close>, the stats hold under \<open>s\<close> the number of solved
  records of section \<open>s\<close> as solved counter and the number of records of section \<open>s\<close> in
  solved followed by unsolved as total counter, and \<open>s\<close> is a key exactly when some record
  has that section. A section that appears only in unsolved has a solved counter of 0.
  With solved = [A, B] and unsolved = [C], all in section Intro, the stats are
  solved_count 2, total_count 3 and sections Intro: solved 2, total 3.
\<close>

theorem section_counters:
  "map_of (sections (compute_stats u t l (mk_problems_data sv un))) s
     = (if s \<in> section_name ` set (sv @ un)
        then Some \<lparr>sec_solved = section_count s sv, sec_total = section_count s (sv @ un)\<rparr>
        else None)
   \<and> (s \<in> section_name ` set un \<and> s \<notin> section_name ` set sv \<longrightarrow>
        map_of (sections (compute_stats u t l (mk_problems_data sv un))) s
          = Some \<lparr>sec_solved = 0, sec_total = section_count s un\<rparr>)
   \<and> compute_stats u t l
        (mk_problems_data [example_problem ''Intro'' a True, example_problem ''Intro'' b True]
           [example_problem ''Intro'' c False])
       = \<lparr>username = u, timestamp = t, solved_count = 2, total_count = 3, last_updated = l,
          sections = [(''Intro'', \<lparr>sec_solved = 2, sec_total = 3\<rparr>)]\<rparr>"
proof (intro conjI impI)
  show main: "map_of (sections (compute_stats u t l (mk_problems_data sv un))) s
     = (if s \<in> section_name ` set (sv @ un)
        then Some \<lparr>sec_solved = section_count s sv, sec_total = section_count s (sv @ un)\<rparr>
        else None)"
    using keys_sections [of u t l sv un]
    by (simp only: map_of_counters [of _ s] counters_sections)
  assume only: "s \<in> section_name ` set un \<and> s \<notin> section_name ` set sv"
  then have "section_count s sv = 0"
    by (auto simp: section_count_def in_section_def filter_empty_conv image_iff)
  with only main
  show "map_of (sections (compute_stats u t l (mk_problems_data sv un))) s
          = Some \<lparr>sec_solved = 0, sec_total = section_count s un\<rparr>"
    by (auto simp: section_count_append)
next
  show "compute_stats u t l
        (mk_problems_data [example_problem ''Intro'' a True, example_problem ''Intro'' b True]
           [example_problem ''Intro'' c False])
       = \<lparr>username = u, timestamp = t, solved_count = 2, total_count = 3, last_updated = l,
          sections = [(''Intro'', \<lparr>sec_solved = 2, sec_total = 3\<rparr>)]\<rparr>"
    by (simp add: compute_stats_def mk_problems_data_def total_pass_def solved_pass_def
        total_step_def solved_step_def modify_def ensure_section_def has_key_def
        fresh_section_def example_problem_def)
qed

theorem section_counters_witness:
  "''Graphs'' \<in> section_name ` set [example_problem ''Graphs'' ''D'' False]
   \<and> ''Graphs'' \<notin> section_name ` set [example_problem ''Intro'' ''A'' True]
   \<and> map_of (sections (compute_stats ''alice'' ''20240101_120000'' ''2024-01-01 12:00:00''
        (mk_problems_data [example_problem ''Intro'' ''A'' True]
           [example_problem ''Graphs'' ''D'' False]))) ''Graphs''
       = Some \<lparr>sec_solved = 0, sec_total = 1\<rparr>"
  using section_counters [of "''alice''" "''20240101_120000''" "''2024-01-01 12:00:00''"
      "[example_problem ''Intro'' ''A'' True]" "[example_problem ''Graphs'' ''D'' False]"
      "''Graphs''"]
  by (simp add: section_count_def in_section_def example_problem_def)

text \<open>
  Claim C4. The stats of every problem set have solved_count = len(solved) and
  total_count = len(solved) + len(unsolved); the total counters of the sections add up to
  total_count and the solved counters to solved_count; in every section
  0 \<le> solved \<le> total, and 0 \<le> solved_count \<le> total_count.
\<close>

theorem stats_invariants:
  "solved_count (compute_stats u t l (mk_problems_data sv un)) = int (length sv)
   \<and> total_count (compute_stats u t l (mk_problems_data sv un))
       = int (length sv) + int (length un)
   \<and> sum_total (sections (compute_stats u t l (mk_problems_data sv un)))
       = total_count (compute_stats u t l (mk_problems_data sv un))
   \<and> sum_solved (sections (compute_stats u t l (mk_problems_data sv un)))
       = solved_count (compute_stats u t l (mk_problems_data sv un))
   \<and> (\<forall>(k, v) \<in> set (sections (compute_stats u t l (mk_problems_data sv un))).
         0 \<le> sec_solved v \<and> sec_solved v \<le> sec_total v)
   \<and> 0 \<le> solved_count (compute_stats u t l (mk_problems_data sv un))
   \<and> solved_count (compute_stats u t l (mk_problems_data sv un))
       \<le> total_count (compute_stats u t l (mk_problems_data sv un))"
proof -
  let ?st = "compute_stats u t l (mk_problems_data sv un)"
  have counts: "solved_count ?st = int (length sv)"
      "total_count ?st = int (length sv) + int (length un)"
    by (simp_all add: compute_stats_def mk_problems_data_def)
  have each: "0 \<le> sec_solved v \<and> sec_solved v \<le> sec_total v"
    if "(k, v) \<in> set (sections ?st)" for k v
  proof -
    from that have "map_of (sections ?st) k = Some v"
      using distinct_sections [of u t l sv un] by simp
    then have "counters (sections ?st) k = v"
      by (simp add: counters_def)
    then have "v = \<lparr>sec_solved = section_count k sv, sec_total = section_count k (sv @ un)\<rparr>"
      by (simp add: counters_sections)
    then show ?thesis
      by (simp add: section_count_append section_count_nonneg)
  qed
  from counts sums_sections [of u t l sv un] each show ?thesis
    by auto
qed

theorem stats_invariants_witness:
  "(''Intro'', \<lparr>sec_solved = 1, sec_total = 2\<rparr>)
     \<in> set (sections (compute_stats ''alice'' ''20240101_120000'' ''2024-01-01 12:00:00''
        (mk_problems_data [example_problem ''Intro'' ''A'' True]
           [example_problem ''Intro'' ''C'' False])))
   \<and> sum_total (sections (compute_stats ''alice'' ''20240101_120000'' ''2024-01-01 12:00:00''
        (mk_problems_data [example_problem ''Intro'' ''A'' True]
           [example_problem ''Intro'' ''C'' False]))) = 2
   \<and> (0::int) \<le> 1 \<and> (1::int) \<le> 2"
  using stats_invariants [of "''alice''" "''20240101_120000''" "''2024-01-01 12:00:00''"
      "[example_problem ''Intro'' ''A'' True]" "[example_problem ''Intro'' ''C'' False]"]
  by (simp add: compute_stats_def mk_problems_data_def total_pass_def solved_pass_def
      total_step_def solved_step_def modify_def ensure_section_def has_key_def
      fresh_section_def example_problem_def)

section \<open>Lemmas on computations\<close>

lemma events_bind:
  "events (bind m f) =
     (case outcome m of Inl e \<Rightarrow> events m | Inr x \<Rightarrow> events m @ events (f x))"
  by (cases m) (auto simp: bind_def events_def outcome_def split: sum.splits prod.splits)

lemma outcome_bind:
  "outcome (bind m f) = (case outcome m of Inl e \<Rightarrow> Inl e | Inr x \<Rightarrow> outcome (f x))"
  by (cases m) (auto simp: bind_def events_def outcome_def split: sum.splits prod.splits)

lemma events_catch: "events (catch m h) = events m"
  by (cases m) (auto simp: catch_def events_def split: sum.splits)

lemma outcome_catch:
  "outcome (catch m h) = (case outcome m of Inl e \<Rightarrow> Inr (h e) | Inr x \<Rightarrow> Inr x)"
  by (cases m) (auto simp: catch_def outcome_def split: sum.splits)

lemma events_simple:
  "events (ret x) = []" "events (silent r) = []" "events (call ev r) = [ev]"
  by (simp_all add: events_def ret_def silent_def call_def)

lemma outcome_simple:
  "outcome (ret x) = Inr x" "outcome (silent r) = r" "outcome (call ev r) = r"
  by (simp_all add: outcome_def ret_def silent_def call_def)

lemma events_pair: "events (es, r) = es"
  by (simp add: events_def)

lemma outcome_pair: "outcome (es, r) = r"
  by (simp add: outcome_def)

lemmas eff_simps = events_pair outcome_pair events_bind outcome_bind events_catch outcome_catch events_simple outcome_simple

section \<open>Lemmas on login and extraction\<close>

lemma login_all_ok:
  assumes "\<forall>r \<in> set (login_calls lp). r = Inr ()" and "lp_title lp = Inr title"
  shows "outcome (login_to_cses lp user password) =
           Inr (if py_in ''Login'' title then (False, ''Login failed. Please check credentials.'')
                else (True, ''Login successful''))"
  using assms by (simp add: login_calls_def login_to_cses_def login_steps_def eff_simps)

lemma login_total:
  "\<exists>flag msg. outcome (login_to_cses lp user password) = Inr (flag, msg)"
  by (cases "outcome (login_steps lp user password)")
     (auto simp: login_to_cses_def outcome_catch)

lemma login_steps_raise:
  assumes "Inl e \<in> set (login_calls lp) \<or> lp_title lp = Inl e"
  shows "\<exists>e'. outcome (login_steps lp user password) = Inl e'"
  using assms
  by (auto simp: login_calls_def login_steps_def eff_simps split: sum.splits)

lemma problem_steps:
  "solved_problems (foldl (problem_step sec) st ts) =
     solved_problems st @ filter solved (concat (map (\<lambda>t. case problem_data sec t of Inl e \<Rightarrow> [] | Inr p \<Rightarrow> [p]) ts))
   \<and> unsolved_problems (foldl (problem_step sec) st ts) =
     unsolved_problems st @ filter (\<lambda>p. \<not> solved p) (concat (map (\<lambda>t. case problem_data sec t of Inl e \<Rightarrow> [] | Inr p \<Rightarrow> [p]) ts))"
  by (induction ts arbitrary: st) (auto simp: problem_step_def split: sum.splits)

lemma section_step_lists:
  "solved_problems (section_step st tlist) = solved_problems st @ filter solved (processed tlist)"
  "unsolved_problems (section_step st tlist)
     = unsolved_problems st @ filter (\<lambda>p. \<not> solved p) (processed tlist)"
  by (auto simp: section_step_def processed_def bind_res_def problem_steps split: sum.splits)

lemma section_steps:
  "solved_problems (foldl section_step st tls)
     = solved_problems st @ filter solved (concat (map processed tls))
   \<and> unsolved_problems (foldl section_step st tls)
     = unsolved_problems st @ filter (\<lambda>p. \<not> solved p) (concat (map processed tls))"
  by (induction tls arbitrary: st) (simp_all add: section_step_lists)

lemma extract_problems_lists:
  "solved_problems (extract_problems tls) = filter solved (concat (map processed tls))"
  "unsolved_problems (extract_problems tls) = filter (\<lambda>p. \<not> solved p) (concat (map processed tls))"
  by (simp_all add: extract_problems_def section_steps)

lemma outcome_scrape_problem_data:
  "outcome (scrape_problem_data pp) =
     (case bind_res (pp_get pp) (\<lambda>_. bind_res (pp_wait pp) (\<lambda>_. pp_task_lists pp)) of
        Inl e \<Rightarrow> Inr (Inl (''Scraping error: '' @ e))
      | Inr tls \<Rightarrow>
          Inr (if solved_problems (extract_problems tls) = [] \<and> unsolved_problems (extract_problems tls) = []
               then Inl ''No problems found on the page''
               else Inr (mk_problems_data (solved_problems (extract_problems tls))
                      (unsolved_problems (extract_problems tls)))))"
  by (simp add: scrape_problem_data_def scrape_steps_def eff_simps bind_res_def Let_def
       split: sum.splits)

lemma processed_member:
  assumes "tl_heading tlist = Inr sec" "tl_tasks tlist = Inr problems"
      and "t \<in> set problems" "problem_data sec t = Inr p"
  shows "p \<in> set (processed tlist)"
  using assms by (force simp: processed_def)

section \<open>Lemmas on the scrape request\<close>

lemma events_setup_driver:
  "events (setup_driver w) = (case chrome w of Inl e \<Rightarrow> [] | Inr u \<Rightarrow> [ChromeStarted])"
  by (simp add: setup_driver_def eff_simps split: sum.splits)

lemma outcome_setup_driver:
  "outcome (setup_driver w) = bind_res (chrome w) (\<lambda>_. implicitly_wait w)"
  by (simp add: setup_driver_def eff_simps bind_res_def split: sum.splits)

lemma setup_driver_returned:
  "outcome (setup_driver w) = Inr () \<longleftrightarrow> chrome w = Inr () \<and> implicitly_wait w = Inr ()"
  by (auto simp: outcome_setup_driver bind_res_def split: sum.splits)

lemma events_ensure_user_directory:
  "events (ensure_user_directory w user) = [Mkdir (Child BASE_DATA_DIR user)]"
  by (simp add: ensure_user_directory_def eff_simps Let_def split: sum.splits)

lemma outcome_ensure_user_directory:
  "outcome (ensure_user_directory w user) = bind_res (mkdir w) (\<lambda>_. Inr (Child BASE_DATA_DIR user))"
  by (simp add: ensure_user_directory_def eff_simps Let_def bind_res_def split: sum.splits)

lemma events_login:
  "e \<in> set (events (login_to_cses lp user password)) \<Longrightarrow> is_browser_use e"
  by (auto simp: login_to_cses_def login_steps_def eff_simps is_browser_use_def
      split: sum.splits if_splits)

lemma events_scrape_problem_data:
  "e \<in> set (events (scrape_problem_data pp)) \<Longrightarrow> is_browser_use e \<or> is_printed e"
  by (auto simp: scrape_problem_data_def scrape_steps_def eff_simps is_browser_use_def
      is_printed_def Let_def split: sum.splits if_splits)

lemma events_save_snapshot:
  "e \<in> set (events (save_snapshot w user user_dir pd)) \<Longrightarrow> is_write e"
  by (auto simp: save_snapshot_def eff_simps is_write_def Let_def split: sum.splits if_splits)

lemma stats_written_append: "stats_written (es @ es') = stats_written es @ stats_written es'"
  by (induction es rule: stats_written.induct) simp_all

lemma stats_written_none: "\<forall>e \<in> set es. \<not> is_write e \<Longrightarrow> stats_written es = []"
  by (induction es rule: stats_written.induct) (simp_all add: is_write_def)

lemma stats_written_save_snapshot:
  "st \<in> set (stats_written (events (save_snapshot w user user_dir pd))) \<Longrightarrow>
   st = compute_stats user (now_timestamp w) (now_last_updated w) pd"
  by (auto simp: save_snapshot_def eff_simps Let_def split: sum.splits if_splits)

lemma events_scrape_user:
  "e \<in> set (events (scrape_user w user password)) \<Longrightarrow>
   is_mkdir e \<or> is_browser_use e \<or> is_printed e \<or> is_write e"
  by (auto simp: scrape_user_def events_bind events_ensure_user_directory events_simple
      is_mkdir_def
      dest: events_login events_scrape_problem_data events_save_snapshot
      split: sum.splits if_splits prod.splits)

lemma events_scrape_try:
  "events (scrape_try w n) =
     events (setup_driver w) @
     (if outcome (setup_driver w) = Inr () \<and> truthy (cf_username w n) \<and> truthy (cf_password w n)
      then events (scrape_user w (the (cf_username w n)) (the (cf_password w n))) else [])"
  by (cases "outcome (setup_driver w)") (auto simp: scrape_try_def eff_simps)

lemma outcome_scrape_try:
  "outcome (scrape_try w n) =
     bind_res (outcome (setup_driver w)) (\<lambda>_.
       if \<not> truthy (cf_username w n) \<or> \<not> truthy (cf_password w n)
       then Inr (Error (''User '' @ str_int n @ '' credentials not found''), 404)
       else outcome (scrape_user w (the (cf_username w n)) (the (cf_password w n))))"
  by (cases "outcome (setup_driver w)") (auto simp: scrape_try_def eff_simps bind_res_def)

lemma events_scrape:
  "events (scrape w n) =
     events (scrape_try w n) @ (if outcome (setup_driver w) = Inr () then [QuitCalled] else [])"
  by (cases "scrape_try w n")
     (auto simp: scrape_def catch_def events_def split: sum.splits prod.splits)

lemma outcome_scrape:
  "outcome (scrape w n) =
     (if outcome (setup_driver w) = Inr ()
      then bind_res (quit w) (\<lambda>_.
             case outcome (scrape_try w n) of Inl e \<Rightarrow> Inr (Error e, 500) | Inr r \<Rightarrow> Inr r)
      else case outcome (scrape_try w n) of Inl e \<Rightarrow> Inr (Error e, 500) | Inr r \<Rightarrow> Inr r)"
  by (cases "scrape_try w n")
     (auto simp: scrape_def catch_def outcome_def bind_res_def split: sum.splits prod.splits)

lemma outcome_scrape_user:
  "outcome (scrape_user w user password) =
     bind_res (mkdir w) (\<lambda>_.
     bind_res (outcome (login_to_cses (login w) user password)) (\<lambda>(success, msg).
       if \<not> success then Inr (Error msg, 401)
       else bind_res (outcome (scrape_problem_data (problemset w))) (\<lambda>r.
              case r of
                Inl problems_msg \<Rightarrow> Inr (Error problems_msg, 500)
              | Inr pd \<Rightarrow> outcome (save_snapshot w user (Child BASE_DATA_DIR user) pd))))"
  by (auto simp: scrape_user_def outcome_bind outcome_ensure_user_directory bind_res_def
      outcome_simple split: sum.splits prod.splits)

lemma events_scrape_user_no_data:
  assumes "\<And>pd. outcome (scrape_problem_data (problemset w)) \<noteq> Inr (Inr pd)"
      and "e \<in> set (events (scrape_user w user password))"
  shows "\<not> is_write e"
  using assms
  by (auto simp: scrape_user_def events_bind events_ensure_user_directory events_simple
      is_write_def is_browser_use_def is_printed_def
      dest!: events_login events_scrape_problem_data
      split: sum.splits if_splits prod.splits event.splits)

lemma not_write_kinds:
  "is_browser_use e \<Longrightarrow> \<not> is_write e" "is_printed e \<Longrightarrow> \<not> is_write e"
  "is_mkdir e \<Longrightarrow> \<not> is_write e"
  by (auto simp: is_browser_use_def is_printed_def is_write_def is_mkdir_def split: event.splits)

lemma stats_written_login: "stats_written (events (login_to_cses lp user password)) = []"
  by (rule stats_written_none) (auto dest: events_login not_write_kinds)

lemma stats_written_scrape_problem_data: "stats_written (events (scrape_problem_data pp)) = []"
  by (rule stats_written_none) (auto dest: events_scrape_problem_data not_write_kinds)

lemma stats_written_scrape_user:
  assumes "st \<in> set (stats_written (events (scrape_user w user password)))"
  shows "\<exists>pd. outcome (scrape_problem_data (problemset w)) = Inr (Inr pd)
           \<and> st = compute_stats user (now_timestamp w) (now_last_updated w) pd"
  using assms
  by (auto simp: scrape_user_def events_bind events_ensure_user_directory events_simple
      stats_written_append stats_written_login stats_written_scrape_problem_data
      dest: stats_written_save_snapshot
      split: sum.splits if_splits prod.splits)

lemma stats_written_scrape:
  assumes "st \<in> set (stats_written (events (scrape w n)))"
  shows "\<exists>user pd. outcome (scrape_problem_data (problemset w)) = Inr (Inr pd)
           \<and> st = compute_stats user (now_timestamp w) (now_last_updated w) pd"
proof -
  have "stats_written (events (setup_driver w)) = []"
    by (simp add: events_setup_driver split: sum.splits)
  with assms have "st \<in> set (stats_written
      (events (scrape_user w (the (cf_username w n)) (the (cf_password w n)))))"
    by (auto simp: events_scrape events_scrape_try stats_written_append split: if_splits)
  then show ?thesis
    using stats_written_scrape_user by blast
qed

lemma scraped_data_nonempty:
  assumes "outcome (scrape_problem_data pp) = Inr (Inr pd)"
  shows "\<exists>sv un. pd = mk_problems_data sv un \<and> (sv \<noteq> [] \<or> un \<noteq> [])"
  using assms
  by (auto simp: outcome_scrape_problem_data split: sum.splits if_splits)

lemma total_positive: "sv \<noteq> [] \<or> un \<noteq> [] \<Longrightarrow> 1 \<le> total_problems (mk_problems_data sv un)"
  by (cases sv; cases un) (simp_all add: mk_problems_data_def)

lemma written_total_positive:
  assumes "st \<in> set (stats_written (events (scrape w n)))"
  shows "1 \<le> total_count st"
proof -
  from stats_written_scrape [OF assms] obtain user pd
    where pd: "outcome (scrape_problem_data (problemset w)) = Inr (Inr pd)"
      and st: "st = compute_stats user (now_timestamp w) (now_last_updated w) pd"
    by blast
  from scraped_data_nonempty [OF pd] obtain sv un
    where "pd = mk_problems_data sv un" "sv \<noteq> [] \<or> un \<noteq> []"
    by blast
  with st show ?thesis
    using total_positive [of sv un] by (simp add: compute_stats_def)
qed

lemma setup_driver_started:
  "outcome (setup_driver w) = Inr () \<Longrightarrow> events (setup_driver w) = [ChromeStarted]"
  by (auto simp: events_setup_driver setup_driver_returned)

lemma setup_driver_event: "ev \<in> set (events (setup_driver w)) \<Longrightarrow> ev = ChromeStarted"
  by (auto simp: events_setup_driver split: sum.splits)

text \<open>
  When \<^verbatim>\<open>webdriver.Chrome(...)\<close> has returned and \<^verbatim>\<open>implicitly_wait\<close> raises, \<^verbatim>\<open>setup_driver\<close>
  hands no driver to the request: the variable \<^verbatim>\<open>driver\<close> of \<^verbatim>\<open>scrape\<close> stays \<^verbatim>\<open>None\<close>, the
  request answers with the 500 error and the \<^verbatim>\<open>finally\<close> block calls no \<^verbatim>\<open>quit\<close>.
\<close>

lemma setup_failure_after_start:
  assumes "chrome w = Inr ()" and "implicitly_wait w = Inl e"
  shows "events (scrape w n) = [ChromeStarted]" and "outcome (scrape w n) = Inr (Error e, 500)"
  using assms
  by (simp_all add: events_scrape events_scrape_try outcome_scrape outcome_scrape_try
      events_setup_driver outcome_setup_driver bind_res_def)

section \<open>Lemmas on the leaderboard\<close>

lemma set_insert_desc: "set (insert_desc u vs) = insert u (set vs)"
  by (induction vs) auto

lemma sorted_insert_desc:
  "sorted_wrt (\<ge>) (map (\<lambda>u. solved_count (stats u)) vs) \<Longrightarrow>
   sorted_wrt (\<ge>) (map (\<lambda>u. solved_count (stats u)) (insert_desc u vs))"
  by (induction vs) (auto simp: set_insert_desc)

lemma filter_insert_desc:
  "filter (\<lambda>v. solved_count (stats v) = k) (insert_desc u vs) =
     (if solved_count (stats u) = k then u # filter (\<lambda>v. solved_count (stats v) = k) vs
      else filter (\<lambda>v. solved_count (stats v) = k) vs)"
  by (induction vs) auto

lemma sorted_sort_desc: "sorted_wrt (\<ge>) (map (\<lambda>u. solved_count (stats u)) (sort_desc users))"
  unfolding sort_desc_def by (induction users) (simp_all add: sorted_insert_desc)

lemma filter_sort_desc:
  "filter (\<lambda>v. solved_count (stats v) = k) (sort_desc users)
     = filter (\<lambda>v. solved_count (stats v) = k) users"
  unfolding sort_desc_def by (induction users) (simp_all add: filter_insert_desc)

lemma load_entry_cases:
  "load_entry fdiv times100 NotADirectory = Inr None"
  "load_entry fdiv times100 (Directory Absent) = Inr None"
  "load_entry fdiv times100 (Directory (Present (Inl e))) = Inl e"
  "load_entry fdiv times100 (Directory (Present (Inr st))) =
     (if total_count st = 0 then Inl ''division by zero''
      else case fdiv (solved_count st) (total_count st) of
             None \<Rightarrow> Inl ''integer division result too large for a float''
           | Some q \<Rightarrow> Inr (Some \<lparr>stats = st, progress = times100 q\<rparr>))"
  by (simp_all add: load_entry_def bind_res_def py_truediv_def split: option.splits)

lemma stored_cases:
  "stored (NotADirectory # entries) = stored entries"
  "stored (Directory Absent # entries) = stored entries"
  "stored (Directory (Present (Inl e)) # entries) = stored entries"
  "stored (Directory (Present (Inr st)) # entries) = st # stored entries"
  by simp_all

lemma collect_readable:
  assumes "\<forall>entry \<in> set entries. \<not> unreadable entry"
      and "\<forall>st \<in> set (stored entries).
             total_count st \<noteq> 0 \<and> fdiv (solved_count st) (total_count st) \<noteq> None"
  shows "\<exists>users. collect fdiv times100 acc entries = Inr (acc @ users)
           \<and> map stats users = stored entries
           \<and> (\<forall>u \<in> set users. Some (progress u)
                 = map_option times100 (fdiv (solved_count (stats u)) (total_count (stats u))))"
  using assms
proof (induction entries arbitrary: acc)
  case Nil
  then show ?case by simp
next
  case (Cons entry entries)
  from Cons.prems(1) have readable: "\<forall>entry \<in> set entries. \<not> unreadable entry"
    by simp
  consider (skipped) "entry = NotADirectory \<or> entry = Directory Absent"
    | (raised) e where "entry = Directory (Present (Inl e))"
    | (loaded) st where "entry = Directory (Present (Inr st))"
  proof (cases entry)
    case NotADirectory
    then show ?thesis using skipped by simp
  next
    case (Directory doc)
    show ?thesis
    proof (cases doc)
      case Absent
      with Directory show ?thesis using skipped by simp
    next
      case (Present r)
      with Directory show ?thesis using raised loaded by (cases r) simp_all
    qed
  qed
  then show ?case
  proof cases
    case skipped
    with Cons.prems(2) have "\<forall>st \<in> set (stored entries).
        total_count st \<noteq> 0 \<and> fdiv (solved_count st) (total_count st) \<noteq> None"
      by (auto simp: stored_cases)
    from Cons.IH [OF readable this, of acc] skipped show ?thesis
      by (auto simp: load_entry_cases stored_cases)
  next
    case raised
    with Cons.prems(1) show ?thesis
      by (simp add: unreadable_def)
  next
    case loaded
    with Cons.prems(2) obtain q where q: "fdiv (solved_count st) (total_count st) = Some q"
        and nz: "total_count st \<noteq> 0"
      by (auto simp: stored_cases)
    from loaded Cons.prems(2) have "\<forall>st \<in> set (stored entries).
        total_count st \<noteq> 0 \<and> fdiv (solved_count st) (total_count st) \<noteq> None"
      by (simp add: stored_cases)
    from Cons.IH [OF readable this, of "acc @ [\<lparr>stats = st, progress = times100 q\<rparr>]"]
    obtain users where users:
        "collect fdiv times100 (acc @ [\<lparr>stats = st, progress = times100 q\<rparr>]) entries
           = Inr ((acc @ [\<lparr>stats = st, progress = times100 q\<rparr>]) @ users)"
        "map stats users = stored entries"
        "\<forall>u \<in> set users. Some (progress u)
           = map_option times100 (fdiv (solved_count (stats u)) (total_count (stats u)))"
      by blast
    with q nz loaded show ?thesis
      by (intro exI [of _ "\<lparr>stats = st, progress = times100 q\<rparr> # users"])
         (simp add: load_entry_cases stored_cases)
  qed
qed

lemma collect_zero_total:
  assumes "Directory (Present (Inr doc)) \<in> set entries" and "total_count doc = 0"
  shows "\<exists>e. collect fdiv times100 acc entries = Inl e"
  using assms
proof (induction entries arbitrary: acc)
  case Nil
  then show ?case by simp
next
  case (Cons entry entries)
  show ?case
  proof (cases "load_entry fdiv times100 entry")
    case (Inl e)
    then show ?thesis by simp
  next
    case (Inr r)
    with Cons.prems have "Directory (Present (Inr doc)) \<in> set entries"
      by (auto simp: load_entry_cases)
    from Cons.IH [OF this Cons.prems(2)] Inr show ?thesis
      by (cases r) auto
  qed
qed

section \<open>Login handshake and problem extraction\<close>

text \<open>
  Claim C6. The login handshake never propagates an exception: whatever the Selenium calls
  do, it returns a pair of a flag and a message. The flag is false, with a message made
  from the exception, when any call or the reading of the title raises; it is false, with
  the message to check the credentials, when every call returns and the title of the page
  after the submit still contains Login; otherwise it is true.
\<close>

theorem login_never_raises:
  "(\<exists>flag msg. outcome (login_to_cses lp user password) = Inr (flag, msg))
   \<and> ((\<exists>e. Inl e \<in> set (login_calls lp) \<or> lp_title lp = Inl e) \<longrightarrow>
        (\<exists>e'. outcome (login_to_cses lp user password) = Inr (False, ''Login error: '' @ e')))
   \<and> ((\<forall>r \<in> set (login_calls lp). r = Inr ()) \<and> lp_title lp = Inr title
          \<and> py_in ''Login'' title \<longrightarrow>
        outcome (login_to_cses lp user password)
          = Inr (False, ''Login failed. Please check credentials.''))
   \<and> ((\<forall>r \<in> set (login_calls lp). r = Inr ()) \<and> lp_title lp = Inr title
          \<and> \<not> py_in ''Login'' title \<longrightarrow>
        outcome (login_to_cses lp user password) = Inr (True, ''Login successful''))"
proof (intro conjI impI)
  show "\<exists>flag msg. outcome (login_to_cses lp user password) = Inr (flag, msg)"
    by (rule login_total)
next
  assume "\<exists>e. Inl e \<in> set (login_calls lp) \<or> lp_title lp = Inl e"
  then obtain e' where "outcome (login_steps lp user password) = Inl e'"
    using login_steps_raise by blast
  then show "\<exists>e'. outcome (login_to_cses lp user password) = Inr (False, ''Login error: '' @ e')"
    by (simp add: login_to_cses_def outcome_catch)
next
  assume "(\<forall>r \<in> set (login_calls lp). r = Inr ()) \<and> lp_title lp = Inr title
            \<and> py_in ''Login'' title"
  then show "outcome (login_to_cses lp user password)
               = Inr (False, ''Login failed. Please check credentials.'')"
    using login_all_ok [of lp title user password] by simp
next
  assume "(\<forall>r \<in> set (login_calls lp). r = Inr ()) \<and> lp_title lp = Inr title
            \<and> \<not> py_in ''Login'' title"
  then show "outcome (login_to_cses lp user password) = Inr (True, ''Login successful'')"
    using login_all_ok [of lp title user password] by simp
qed

theorem login_never_raises_witness:
  "outcome (login_to_cses good_login ''alice'' ''secret'') = Inr (True, ''Login successful'')
   \<and> outcome (login_to_cses (good_login\<lparr>lp_title := Inr ''CSES - Login''\<rparr>) ''alice'' ''secret'')
       = Inr (False, ''Login failed. Please check credentials.'')
   \<and> (\<exists>e'. outcome (login_to_cses (good_login\<lparr>lp_pass := Inl ''timeout''\<rparr>) ''alice'' ''secret'')
       = Inr (False, ''Login error: '' @ e'))"
  using login_never_raises [of good_login "''alice''" "''secret''" "''CSES - CSES Problem Set''"]
    login_never_raises [of "good_login\<lparr>lp_title := Inr ''CSES - Login''\<rparr>" "''alice''"
      "''secret''" "''CSES - Login''"]
    login_never_raises [of "good_login\<lparr>lp_pass := Inl ''timeout''\<rparr>" "''alice''" "''secret''"]
  by (simp add: good_login_def login_calls_def)

text \<open>
  Claim C8. When the problem list has been reached, an entry whose own processing raises
  nothing, in a task list whose heading and entries can be read, has its record in the
  solved or the unsolved sequence of the result, whatever happens with the other entries
  and task lists: the two sequences are exactly the records of all such entries in page
  order, so a failing entry or task list removes only its own records.
\<close>

theorem partial_extraction:
  assumes "pp_get pp = Inr ()" "pp_wait pp = Inr ()" "pp_task_lists pp = Inr task_lists"
      and "tlist \<in> set task_lists" "tl_heading tlist = Inr sec" "tl_tasks tlist = Inr problems"
      and "t \<in> set problems" "problem_data sec t = Inr p"
  shows "\<exists>pd. outcome (scrape_problem_data pp) = Inr (Inr pd)
           \<and> p \<in> set (if solved p then pd_solved pd else pd_unsolved pd)
           \<and> pd_solved pd = filter solved (concat (map processed task_lists))
           \<and> pd_unsolved pd = filter (\<lambda>p. \<not> solved p) (concat (map processed task_lists))"
proof -
  define found where "found = concat (map processed task_lists)"
  have "p \<in> set (processed tlist)"
    using assms(5-8) by (rule processed_member)
  with assms(4) have mem: "p \<in> set found"
    by (auto simp: found_def)
  then have nonempty: "\<not> (filter solved found = [] \<and> filter (\<lambda>p. \<not> solved p) found = [])"
    by (auto simp: filter_empty_conv)
  have lists: "solved_problems (extract_problems task_lists) = filter solved found"
      "unsolved_problems (extract_problems task_lists) = filter (\<lambda>p. \<not> solved p) found"
    by (simp_all only: extract_problems_lists found_def)
  have "outcome (scrape_problem_data pp)
          = Inr (Inr (mk_problems_data (filter solved found) (filter (\<lambda>p. \<not> solved p) found)))"
    using assms(1-3) nonempty
    by (simp add: outcome_scrape_problem_data bind_res_def lists)
  moreover have "p \<in> set (if solved p then filter solved found
                             else filter (\<lambda>p. \<not> solved p) found)"
    using mem by simp
  ultimately have "\<exists>pd. outcome (scrape_problem_data pp) = Inr (Inr pd)
           \<and> p \<in> set (if solved p then pd_solved pd else pd_unsolved pd)
           \<and> pd_solved pd = filter solved found
           \<and> pd_unsolved pd = filter (\<lambda>p. \<not> solved p) found"
    using mem by (simp add: mk_problems_data_def)
  then show ?thesis
    unfolding found_def .
qed

theorem partial_extraction_witness:
  "pp_get example_page = Inr () \<and> pp_wait example_page = Inr ()
   \<and> (\<exists>task_lists tlist problems.
         pp_task_lists example_page = Inr task_lists \<and> tlist \<in> set task_lists
         \<and> tl_heading tlist = Inr ''Graph Algorithms'' \<and> tl_tasks tlist = Inr problems
         \<and> example_task ''1192'' ''task'' \<in> set problems
         \<and> broken_task \<in> set (concat (map (\<lambda>l. case tl_tasks l of Inl e \<Rightarrow> [] | Inr ts \<Rightarrow> ts)
               task_lists))
         \<and> Inl ''no such element'' \<in> set (map tl_heading task_lists))
   \<and> problem_data ''Graph Algorithms'' (example_task ''1192'' ''task'')
       = Inr (example_problem ''Graph Algorithms'' ''1192'' False)
   \<and> (\<exists>pd. outcome (scrape_problem_data example_page) = Inr (Inr pd)
         \<and> example_problem ''Graph Algorithms'' ''1192'' False \<in> set (pd_unsolved pd))"
proof -
  let ?graphs = "\<lparr>tl_heading = Inr ''Graph Algorithms'',
                   tl_tasks = Inr [example_task ''1192'' ''task'']\<rparr>"
  have made: "problem_data ''Graph Algorithms'' (example_task ''1192'' ''task'')
       = Inr (example_problem ''Graph Algorithms'' ''1192'' False)"
    by (simp add: problem_data_def example_task_def example_problem_def bind_res_def
        class_tokens_def py_split_def is_space_def)
  have page: "pp_get example_page = Inr ()" "pp_wait example_page = Inr ()"
    by (simp_all add: example_page_def)
  obtain task_lists where lists: "pp_task_lists example_page = Inr task_lists"
      "?graphs \<in> set task_lists"
      "broken_task \<in> set (concat (map (\<lambda>l. case tl_tasks l of Inl e \<Rightarrow> [] | Inr ts \<Rightarrow> ts)
               task_lists))"
      "Inl ''no such element'' \<in> set (map tl_heading task_lists)"
    by (simp add: example_page_def)
  have "\<exists>pd. outcome (scrape_problem_data example_page) = Inr (Inr pd)
         \<and> example_problem ''Graph Algorithms'' ''1192'' False \<in> set (pd_unsolved pd)"
    using partial_extraction [OF page lists(1,2) _ _ _ made, of "[example_task ''1192'' ''task'']"]
    by (auto simp: example_problem_def)
  moreover have "\<exists>task_lists tlist problems.
         pp_task_lists example_page = Inr task_lists \<and> tlist \<in> set task_lists
         \<and> tl_heading tlist = Inr ''Graph Algorithms'' \<and> tl_tasks tlist = Inr problems
         \<and> example_task ''1192'' ''task'' \<in> set problems
         \<and> broken_task \<in> set (concat (map (\<lambda>l. case tl_tasks l of Inl e \<Rightarrow> [] | Inr ts \<Rightarrow> ts)
               task_lists))
         \<and> Inl ''no such element'' \<in> set (map tl_heading task_lists)"
    using lists by (intro exI [of _ task_lists] exI [of _ ?graphs]
        exI [of _ "[example_task ''1192'' ''task'']"]) simp
  ultimately show ?thesis
    using page made by blast
qed

section \<open>The scrape request\<close>

lemma example_login:
  "outcome (login_to_cses good_login user password) = Inr (True, ''Login successful'')"
  using login_all_ok [of good_login "''CSES - CSES Problem Set''" user password]
  by (simp add: good_login_def login_calls_def)

text \<open>
  Claim C2 as the specification states it fails: the browser session is opened at line
  236, before the credentials are looked up, so a request for a user index without
  credentials does open a session (and quits it again).
\<close>

theorem missing_credentials_counterexample:
  "\<not> truthy (cf_username example_world 2)
   \<and> outcome (setup_driver example_world) = Inr ()
   \<and> events (scrape example_world 2) = [ChromeStarted, QuitCalled]"
  by (simp add: events_scrape events_scrape_try setup_driver_returned events_setup_driver
      example_world_def truthy_def)

text \<open>
  Claim C2, as the code has it. For every scrape request whose user index has no username
  or no password configured (unset or empty), the browser session is opened first. When
  the session has been set up, the request does nothing but call \<^verbatim>\<open>driver.quit()\<close>: when that
  call raises nothing, the request returns the not-found error (404) for that user index;
  when it raises, the exception leaves the request in place of the 404. When the session
  cannot be set up, the request returns a server-fault error (500) with the text of the
  exception. In every case the request makes no login or extraction step and writes no
  files or directories.
\<close>

theorem missing_credentials:
  assumes "\<not> truthy (cf_username w n) \<or> \<not> truthy (cf_password w n)"
  shows "(outcome (setup_driver w) = Inr () \<longrightarrow> events (scrape w n) = [ChromeStarted, QuitCalled])
       \<and> (outcome (setup_driver w) = Inr () \<and> quit w = Inr () \<longrightarrow>
            outcome (scrape w n)
              = Inr (Error (''User '' @ str_int n @ '' credentials not found''), 404))
       \<and> (\<forall>e. outcome (setup_driver w) = Inr () \<and> quit w = Inl e \<longrightarrow>
            outcome (scrape w n) = Inl e)
       \<and> (\<forall>e. outcome (setup_driver w) = Inl e \<longrightarrow> outcome (scrape w n) = Inr (Error e, 500))
       \<and> (\<forall>ev \<in> set (events (scrape w n)).
            \<not> is_write ev \<and> \<not> is_mkdir ev \<and> \<not> is_browser_use ev)"
proof (intro conjI impI allI ballI)
  assume "outcome (setup_driver w) = Inr ()"
  with assms show "events (scrape w n) = [ChromeStarted, QuitCalled]"
    by (auto simp: events_scrape events_scrape_try setup_driver_started)
next
  assume "outcome (setup_driver w) = Inr () \<and> quit w = Inr ()"
  with assms show "outcome (scrape w n)
              = Inr (Error (''User '' @ str_int n @ '' credentials not found''), 404)"
    by (auto simp: outcome_scrape outcome_scrape_try bind_res_def)
next
  fix e assume "outcome (setup_driver w) = Inr () \<and> quit w = Inl e"
  then show "outcome (scrape w n) = Inl e"
    by (simp add: outcome_scrape bind_res_def)
next
  fix e assume "outcome (setup_driver w) = Inl e"
  then show "outcome (scrape w n) = Inr (Error e, 500)"
    by (simp add: outcome_scrape outcome_scrape_try bind_res_def)
next
  fix ev assume "ev \<in> set (events (scrape w n))"
  with assms have "ev = ChromeStarted \<or> ev = QuitCalled"
    by (auto simp: events_scrape events_scrape_try dest: setup_driver_event split: if_splits)
  then show "\<not> is_write ev" "\<not> is_mkdir ev" "\<not> is_browser_use ev"
    by (auto simp: is_write_def is_mkdir_def is_browser_use_def)
qed

theorem missing_credentials_witness:
  "\<not> truthy (cf_username example_world 2)
   \<and> outcome (setup_driver example_world) = Inr () \<and> quit example_world = Inr ()
   \<and> events (scrape example_world 2) = [ChromeStarted, QuitCalled]
   \<and> outcome (scrape example_world 2) = Inr (Error ''User 2 credentials not found'', 404)
   \<and> outcome (scrape (example_world\<lparr>quit := Inl ''invalid session id''\<rparr>) 2)
       = Inl ''invalid session id''
   \<and> outcome (scrape (example_world\<lparr>chrome := Inl ''chrome not found''\<rparr>) 2)
       = Inr (Error ''chrome not found'', 500)"
proof -
  let ?q = "example_world\<lparr>quit := Inl ''invalid session id''\<rparr>"
  let ?c = "example_world\<lparr>chrome := Inl ''chrome not found''\<rparr>"
  have unset: "\<not> truthy (cf_username example_world 2)" "\<not> truthy (cf_username ?q 2)"
      "\<not> truthy (cf_username ?c 2)"
    by (simp_all add: example_world_def truthy_def)
  then have missing:
    "\<not> truthy (cf_username example_world 2) \<or> \<not> truthy (cf_password example_world 2)"
    "\<not> truthy (cf_username ?q 2) \<or> \<not> truthy (cf_password ?q 2)"
    "\<not> truthy (cf_username ?c 2) \<or> \<not> truthy (cf_password ?c 2)"
    by simp_all
  have ready: "outcome (setup_driver example_world) = Inr ()" "quit example_world = Inr ()"
      "outcome (setup_driver ?q) = Inr ()" "quit ?q = Inl ''invalid session id''"
      "outcome (setup_driver ?c) = Inl ''chrome not found''"
    by (simp_all add: setup_driver_returned outcome_setup_driver bind_res_def example_world_def)
  have "str_int 2 = ''2''"
    by code_simp
  with missing_credentials [OF missing(1)] missing_credentials [OF missing(2)]
    missing_credentials [OF missing(3)] unset(1) ready
  show ?thesis
    by simp
qed

text \<open>
  Claim C7. When the problem list is reached and the extraction ends with both sequences
  empty, the extractor reports the failure \<^verbatim>\<open>No problems found on the page\<close> instead of an
  empty success. The request then writes no file at all, and, when the pipeline got as far
  as the extraction (session set up, credentials present, user directory made, login
  successful) and the final quit raises nothing, it returns a server-fault error (500)
  with that message.
\<close>

theorem empty_extraction_fails:
  assumes "pp_get (problemset w) = Inr ()" "pp_wait (problemset w) = Inr ()"
      and "pp_task_lists (problemset w) = Inr task_lists"
      and "solved_problems (extract_problems task_lists) = []"
      and "unsolved_problems (extract_problems task_lists) = []"
  shows "outcome (scrape_problem_data (problemset w)) = Inr (Inl ''No problems found on the page'')
       \<and> (\<forall>ev \<in> set (events (scrape w n)). \<not> is_write ev)
       \<and> (outcome (setup_driver w) = Inr () \<and> truthy (cf_username w n) \<and> truthy (cf_password w n)
            \<and> mkdir w = Inr ()
            \<and> (\<exists>msg. outcome (login_to_cses (login w) (the (cf_username w n))
                        (the (cf_password w n))) = Inr (True, msg))
            \<and> quit w = Inr ()
          \<longrightarrow> outcome (scrape w n) = Inr (Error ''No problems found on the page'', 500))"
proof -
  have failed: "outcome (scrape_problem_data (problemset w))
                  = Inr (Inl ''No problems found on the page'')"
    using assms by (simp add: outcome_scrape_problem_data bind_res_def)
  then have no_data: "outcome (scrape_problem_data (problemset w)) \<noteq> Inr (Inr pd)" for pd
    by simp
  have "\<not> is_write ev" if "ev \<in> set (events (scrape w n))" for ev
    using that events_scrape_user_no_data [OF no_data, of ev]
    by (auto simp: events_scrape events_scrape_try events_setup_driver is_write_def
        split: sum.splits if_splits)
  moreover have "outcome (scrape w n) = Inr (Error ''No problems found on the page'', 500)"
    if "outcome (setup_driver w) = Inr () \<and> truthy (cf_username w n) \<and> truthy (cf_password w n)
            \<and> mkdir w = Inr ()
            \<and> (\<exists>msg. outcome (login_to_cses (login w) (the (cf_username w n))
                        (the (cf_password w n))) = Inr (True, msg))
            \<and> quit w = Inr ()"
    using that failed
    by (auto simp: outcome_scrape outcome_scrape_try outcome_scrape_user bind_res_def)
  ultimately show ?thesis
    using failed by blast
qed

theorem empty_extraction_fails_witness:
  "pp_task_lists (problemset (example_world\<lparr>problemset := empty_page\<rparr>)) = Inr []
   \<and> solved_problems (extract_problems []) = [] \<and> unsolved_problems (extract_problems []) = []
   \<and> outcome (scrape (example_world\<lparr>problemset := empty_page\<rparr>) 1)
       = Inr (Error ''No problems found on the page'', 500)
   \<and> filter is_write (events (scrape (example_world\<lparr>problemset := empty_page\<rparr>) 1)) = []"
proof -
  let ?w = "example_world\<lparr>problemset := empty_page\<rparr>"
  have page: "pp_get (problemset ?w) = Inr ()" "pp_wait (problemset ?w) = Inr ()"
      "pp_task_lists (problemset ?w) = Inr []"
    by (simp_all add: empty_page_def)
  have none: "solved_problems (extract_problems []) = []"
      "unsolved_problems (extract_problems []) = []"
    by (simp_all add: extract_problems_def)
  have reached: "outcome (setup_driver ?w) = Inr ()" "truthy (cf_username ?w 1)"
      "truthy (cf_password ?w 1)" "mkdir ?w = Inr ()" "quit ?w = Inr ()"
      "\<exists>msg. outcome (login_to_cses (login ?w) (the (cf_username ?w 1)) (the (cf_password ?w 1)))
         = Inr (True, msg)"
    by (simp_all add: setup_driver_returned example_world_def truthy_def example_login)
  from empty_extraction_fails [OF page none, of 1] reached
  have "outcome (scrape ?w 1) = Inr (Error ''No problems found on the page'', 500)"
      "filter is_write (events (scrape ?w 1)) = []"
    by (blast, simp add: filter_empty_conv)
  with page none show ?thesis
    by simp
qed

text \<open>
  The release that the \<^verbatim>\<open>finally\<close> block of line 316 achieves. Whenever \<^verbatim>\<open>setup_driver\<close> has
  returned the driver to the request, the request quits the driver before it returns, on
  every path: success, missing credentials, login failure, extraction failure or an
  exception caught by the handler of line 314. The call of \<^verbatim>\<open>driver.quit()\<close> is the last
  effect of the request and is made exactly once.
\<close>

theorem session_always_quit:
  assumes "outcome (setup_driver w) = Inr ()"
  shows "\<exists>es. events (scrape w n) = ChromeStarted # es @ [QuitCalled]
           \<and> ChromeStarted \<notin> set es \<and> QuitCalled \<notin> set es"
proof -
  from assms have started: "events (setup_driver w) = [ChromeStarted]"
    by (rule setup_driver_started)
  define es where "es =
     (if truthy (cf_username w n) \<and> truthy (cf_password w n)
      then events (scrape_user w (the (cf_username w n)) (the (cf_password w n))) else [])"
  have "e \<noteq> ChromeStarted \<and> e \<noteq> QuitCalled" if "e \<in> set es" for e
    using that events_scrape_user [of e w]
    by (auto simp: es_def is_mkdir_def is_browser_use_def is_printed_def is_write_def
        split: if_splits)
  moreover have "events (scrape w n) = ChromeStarted # es @ [QuitCalled]"
    using assms started by (simp add: events_scrape events_scrape_try es_def)
  ultimately show ?thesis
    by blast
qed

theorem session_always_quit_witness:
  "outcome (setup_driver example_world) = Inr ()
   \<and> last (events (scrape example_world 1)) = QuitCalled
   \<and> last (events (scrape (example_world\<lparr>login := good_login\<lparr>lp_title := Inr ''CSES - Login''\<rparr>\<rparr>) 1))
       = QuitCalled
   \<and> last (events (scrape (example_world\<lparr>problemset := empty_page\<rparr>) 1)) = QuitCalled
   \<and> last (events (scrape (example_world\<lparr>write_stats := Inl ''No space left on device''\<rparr>) 1))
       = QuitCalled"
proof -
  have ok: "outcome (setup_driver example_world) = Inr ()"
      "outcome (setup_driver (example_world\<lparr>login := good_login\<lparr>lp_title := Inr ''CSES - Login''\<rparr>\<rparr>))
         = Inr ()"
      "outcome (setup_driver (example_world\<lparr>problemset := empty_page\<rparr>)) = Inr ()"
      "outcome (setup_driver (example_world\<lparr>write_stats := Inl ''No space left on device''\<rparr>))
         = Inr ()"
    by (simp_all add: setup_driver_returned example_world_def)
  from session_always_quit [OF ok(1), of 1] session_always_quit [OF ok(2), of 1]
    session_always_quit [OF ok(3), of 1] session_always_quit [OF ok(4), of 1] ok(1)
  show ?thesis
    by auto
qed

text \<open>
  Claim C9 asks that a request in which a browser session was created never returns with
  the session still open. The code misses one path: when \<^verbatim>\<open>webdriver.Chrome(...)\<close> has
  returned (line 138) and \<^verbatim>\<open>driver.implicitly_wait(10)\<close> raises (line 139), the exception
  leaves \<^verbatim>\<open>setup_driver\<close>, the variable \<^verbatim>\<open>driver\<close> of \<^verbatim>\<open>scrape\<close> is still \<^verbatim>\<open>None\<close>, and the
  \<^verbatim>\<open>finally\<close> block skips \<^verbatim>\<open>driver.quit()\<close>. The request answers with the 500 error and the
  browser that was started is never quit.
\<close>

theorem session_left_open:
  "chrome (example_world\<lparr>implicitly_wait := Inl ''chrome not reachable''\<rparr>) = Inr ()
   \<and> implicitly_wait (example_world\<lparr>implicitly_wait := Inl ''chrome not reachable''\<rparr>)
       = Inl ''chrome not reachable''
   \<and> events (scrape (example_world\<lparr>implicitly_wait := Inl ''chrome not reachable''\<rparr>) 1)
       = [ChromeStarted]
   \<and> QuitCalled \<notin> set (events
         (scrape (example_world\<lparr>implicitly_wait := Inl ''chrome not reachable''\<rparr>) 1))
   \<and> outcome (scrape (example_world\<lparr>implicitly_wait := Inl ''chrome not reachable''\<rparr>) 1)
       = Inr (Error ''chrome not reachable'', 500)"
proof -
  let ?w = "example_world\<lparr>implicitly_wait := Inl ''chrome not reachable''\<rparr>"
  have start: "chrome ?w = Inr ()" "implicitly_wait ?w = Inl ''chrome not reachable''"
    by (simp_all add: example_world_def)
  from setup_failure_after_start [OF start, of 1] start show ?thesis
    by simp
qed

section \<open>The leaderboard\<close>

text \<open>
  Claim C5. For every enumeration of the data directory whose stats files can be read and
  hold a total_count other than 0 (as every stats file written by the pipeline does), the
  leaderboard is rendered. The entries are the stored stats documents in enumeration
  order, each with progress = solved_count / total_count * 100 in Python's float
  arithmetic. The ranking is these entries in descending order of solved_count, and the
  sort is stable: the entries of any one solved_count keep their enumeration order.
\<close>

theorem leaderboard_ranking:
  assumes "\<forall>entry \<in> set entries. \<not> unreadable entry"
      and "\<forall>st \<in> set (stored entries).
             total_count st \<noteq> 0 \<and> fdiv (solved_count st) (total_count st) \<noteq> None"
  shows "\<exists>users ranking.
           leaderboard fdiv times100 (Inr entries) now = Leaderboard ranking now
         \<and> map stats users = stored entries
         \<and> (\<forall>u \<in> set users. Some (progress u)
               = map_option times100 (fdiv (solved_count (stats u)) (total_count (stats u))))
         \<and> sorted_wrt (\<ge>) (map (\<lambda>u. solved_count (stats u)) ranking)
         \<and> (\<forall>k. filter (\<lambda>u. solved_count (stats u) = k) ranking
                  = filter (\<lambda>u. solved_count (stats u) = k) users)"
proof -
  from collect_readable [OF assms, of times100 "[]"]
  obtain users where users: "collect fdiv times100 [] entries = Inr users"
      "map stats users = stored entries"
      "\<forall>u \<in> set users. Some (progress u)
         = map_option times100 (fdiv (solved_count (stats u)) (total_count (stats u)))"
    by auto
  have "leaderboard fdiv times100 (Inr entries) now = Leaderboard (sort_desc users) now"
    using users(1) by (simp add: leaderboard_def bind_res_def)
  with users(2,3) show ?thesis
    using sorted_sort_desc [of users] filter_sort_desc [of _ users] by blast
qed

theorem leaderboard_ranking_witness:
  "list_all (\<lambda>entry. \<not> unreadable entry)
       [Directory (Present (Inr (example_stats ''first'' 5 10))), NotADirectory,
        Directory (Present (Inr (example_stats ''second'' 9 10))), Directory Absent,
        Directory (Present (Inr (example_stats ''third'' 9 12)))]
   \<and> stored [Directory (Present (Inr (example_stats ''first'' 5 10))), NotADirectory,
        Directory (Present (Inr (example_stats ''second'' 9 10))), Directory Absent,
        Directory (Present (Inr (example_stats ''third'' 9 12)))]
       = [example_stats ''first'' 5 10, example_stats ''second'' 9 10, example_stats ''third'' 9 12]
   \<and> leaderboard exact_div exact_times100
        (Inr [Directory (Present (Inr (example_stats ''first'' 5 10))), NotADirectory,
        Directory (Present (Inr (example_stats ''second'' 9 10))), Directory Absent,
        Directory (Present (Inr (example_stats ''third'' 9 12)))]) ''2024-01-02 08:00:00''
       = Leaderboard
           [\<lparr>stats = example_stats ''second'' 9 10, progress = (900, 10)\<rparr>,
            \<lparr>stats = example_stats ''third'' 9 12, progress = (900, 12)\<rparr>,
            \<lparr>stats = example_stats ''first'' 5 10, progress = (500, 10)\<rparr>] ''2024-01-02 08:00:00''
   \<and> sorted_wrt (\<ge>) (map (\<lambda>u. solved_count (stats u))
           [\<lparr>stats = example_stats ''second'' 9 10, progress = (900, 10)\<rparr>,
            \<lparr>stats = example_stats ''third'' 9 12, progress = (900, 12)\<rparr>,
            \<lparr>stats = example_stats ''first'' 5 10, progress = (500::int, 10::int)\<rparr>])"
proof -
  let ?entries = "[Directory (Present (Inr (example_stats ''first'' 5 10))), NotADirectory,
        Directory (Present (Inr (example_stats ''second'' 9 10))), Directory Absent,
        Directory (Present (Inr (example_stats ''third'' 9 12)))]"
  have readable: "\<forall>entry \<in> set ?entries. \<not> unreadable entry"
    by (simp add: unreadable_def)
  have docs: "stored ?entries
       = [example_stats ''first'' 5 10, example_stats ''second'' 9 10, example_stats ''third'' 9 12]"
    by simp
  have nonzero: "\<forall>st \<in> set (stored ?entries).
      total_count st \<noteq> 0 \<and> exact_div (solved_count st) (total_count st) \<noteq> None"
    by (simp add: example_stats_def exact_div_def)
  have run: "leaderboard exact_div exact_times100 (Inr ?entries) ''2024-01-02 08:00:00''
       = Leaderboard
           [\<lparr>stats = example_stats ''second'' 9 10, progress = (900, 10)\<rparr>,
            \<lparr>stats = example_stats ''third'' 9 12, progress = (900, 12)\<rparr>,
            \<lparr>stats = example_stats ''first'' 5 10, progress = (500, 10)\<rparr>] ''2024-01-02 08:00:00''"
    by (simp add: leaderboard_def bind_res_def load_entry_cases sort_desc_def example_stats_def
        exact_div_def exact_times100_def)
  from leaderboard_ranking [OF readable nonzero, of exact_times100 "''2024-01-02 08:00:00''"]
  obtain ranking where "leaderboard exact_div exact_times100 (Inr ?entries) ''2024-01-02 08:00:00''
        = Leaderboard ranking ''2024-01-02 08:00:00''"
      "sorted_wrt (\<ge>) (map (\<lambda>u. solved_count (stats u)) ranking)"
    by blast
  with run have "sorted_wrt (\<ge>) (map (\<lambda>u. solved_count (stats u))
           [\<lparr>stats = example_stats ''second'' 9 10, progress = (900, 10)\<rparr>,
            \<lparr>stats = example_stats ''third'' 9 12, progress = (900, 12)\<rparr>,
            \<lparr>stats = example_stats ''first'' 5 10, progress = (500::int, 10::int)\<rparr>])"
    by simp
  moreover from readable have "list_all (\<lambda>entry. \<not> unreadable entry) ?entries"
    by (simp only: list_all_iff)
  ultimately show ?thesis
    using docs run by blast
qed

lemma example_run_stats:
  "map total_count (stats_written (events (scrape example_world 1))) = [3]"
  by code_simp

text \<open>
  Claim C10. Every stats document that a scrape request writes has a total_count of at
  least 1, so dividing by it does not raise \<^verbatim>\<open>ZeroDivisionError\<close>. The leaderboard has no
  guard of its own: a stats document with total_count = 0 makes the division of line 330
  raise, and an enumeration that holds such a document makes the whole leaderboard
  request fail with a server-fault error (500).
\<close>

theorem pipeline_stats_nonzero:
  "(\<forall>st \<in> set (stats_written (events (scrape w n))).
       1 \<le> total_count st
       \<and> py_truediv fdiv (solved_count st) (total_count st) \<noteq> Inl ''division by zero'')
   \<and> (total_count doc = 0 \<longrightarrow>
        load_entry fdiv times100 (Directory (Present (Inr doc))) = Inl ''division by zero'')
   \<and> (Directory (Present (Inr doc)) \<in> set entries \<and> total_count doc = 0 \<longrightarrow>
        (\<exists>e. leaderboard fdiv times100 (Inr entries) now = Failure e 500))"
proof (intro conjI ballI impI)
  fix st assume "st \<in> set (stats_written (events (scrape w n)))"
  then show positive: "1 \<le> total_count st"
    by (rule written_total_positive)
  then show "py_truediv fdiv (solved_count st) (total_count st) \<noteq> Inl ''division by zero''"
    by (auto simp: py_truediv_def split: option.splits)
next
  assume "total_count doc = 0"
  then show "load_entry fdiv times100 (Directory (Present (Inr doc))) = Inl ''division by zero''"
    by (simp add: load_entry_cases)
next
  assume "Directory (Present (Inr doc)) \<in> set entries \<and> total_count doc = 0"
  then obtain e where "collect fdiv times100 [] entries = Inl e"
    using collect_zero_total [of doc entries fdiv times100 "[]"] by blast
  then show "\<exists>e. leaderboard fdiv times100 (Inr entries) now = Failure e 500"
    by (simp add: leaderboard_def bind_res_def)
qed

theorem pipeline_stats_nonzero_witness:
  "map total_count (stats_written (events (scrape example_world 1))) = [3]
   \<and> list_all (\<lambda>st. 1 \<le> total_count st) (stats_written (events (scrape example_world 1)))
   \<and> total_count (example_stats ''nobody'' 0 0) = 0
   \<and> (\<exists>e. leaderboard exact_div exact_times100
          (Inr [Directory (Present (Inr (example_stats ''first'' 5 10))),
                Directory (Present (Inr (example_stats ''nobody'' 0 0)))])
          ''2024-01-02 08:00:00'' = Failure e 500)"
proof -
  have zero: "total_count (example_stats ''nobody'' 0 0) = 0"
    by (simp add: example_stats_def)
  have listed: "Directory (Present (Inr (example_stats ''nobody'' 0 0)))
      \<in> set [Directory (Present (Inr (example_stats ''first'' 5 10))),
             Directory (Present (Inr (example_stats ''nobody'' 0 0)))]"
    by simp
  from pipeline_stats_nonzero [of example_world 1 exact_div "example_stats ''nobody'' 0 0"
      exact_times100
      "[Directory (Present (Inr (example_stats ''first'' 5 10))),
        Directory (Present (Inr (example_stats ''nobody'' 0 0)))]" "''2024-01-02 08:00:00''"]
    zero listed
  have "\<forall>st \<in> set (stats_written (events (scrape example_world 1))). 1 \<le> total_count st"
      "\<exists>e. leaderboard exact_div exact_times100
          (Inr [Directory (Present (Inr (example_stats ''first'' 5 10))),
                Directory (Present (Inr (example_stats ''nobody'' 0 0)))])
          ''2024-01-02 08:00:00'' = Failure e 500"
    by blast+
  then show ?thesis
    using zero example_run_stats by (simp add: list_all_iff)
qed

end
